theory Spec2Isabelle
  imports Complex_Main
begin

section \<open>Strings as Python sees them (code points 0 to 255)\<close>

text \<open>
  Strings are lists of characters, a character being a code point from 0 to
  255 (Latin-1). The string helpers below follow Python's
  \<^verbatim>\<open>str.strip\<close>, \<^verbatim>\<open>str.upper\<close>, \<^verbatim>\<open>str.lower\<close>,
  \<^verbatim>\<open>str.split\<close> and \<^verbatim>\<open>int\<close> on such text. White space is what
  \<^verbatim>\<open>str.isspace\<close> accepts in that range: the ASCII blanks, the separators
  28 to 31, the next-line character 133 and the no-break space 160.
\<close>

definition is_space :: "char \<Rightarrow> bool" where
  "is_space c = (of_char c \<in> {9, 10, 11, 12, 13, 28, 29, 30, 31, 32, 133, 160 :: nat})"

definition is_digit :: "char \<Rightarrow> bool" where
  "is_digit c = (48 \<le> (of_char c :: nat) \<and> (of_char c :: nat) \<le> 57)"

definition digit_val :: "char \<Rightarrow> nat" where
  "digit_val c = of_char c - 48"

text \<open>
  Case mapping of the letters: ASCII, and the accented letters 192 to 222 and
  224 to 254 (215 and 247 are the signs of multiplication and division). The
  upper-case forms of 181, 223 and 255 lie outside the range; \<open>upper\<close> leaves
  these three as they are, and a string that holds one of them is no duration
  either way.
\<close>

definition upper_char :: "char \<Rightarrow> char" where
  "upper_char c =
     (let n = (of_char c :: nat) in
      if (97 \<le> n \<and> n \<le> 122) \<or> (224 \<le> n \<and> n \<le> 254 \<and> n \<noteq> 247)
      then char_of (n - 32) else c)"

definition lower_char :: "char \<Rightarrow> char" where
  "lower_char c =
     (let n = (of_char c :: nat) in
      if (65 \<le> n \<and> n \<le> 90) \<or> (192 \<le> n \<and> n \<le> 222 \<and> n \<noteq> 215)
      then char_of (n + 32) else c)"

definition upper :: "string \<Rightarrow> string" where
  "upper s = map upper_char s"

definition lower :: "string \<Rightarrow> string" where
  "lower s = map lower_char s"

definition strip :: "string \<Rightarrow> string" where
  "strip s = rev (dropWhile is_space (rev (dropWhile is_space s)))"

text \<open>\<^verbatim>\<open>s.split(sep)\<close> for a one-character separator: always at least one piece.\<close>

fun split_on :: "char \<Rightarrow> string \<Rightarrow> string list" where
  "split_on sep [] = [[]]"
| "split_on sep (c # cs) =
     (if c = sep then [] # split_on sep cs
      else (case split_on sep cs of
              [] \<Rightarrow> [[c]]
            | p # ps \<Rightarrow> (c # p) # ps))"

text \<open>The value of a run of decimal digits, most significant first.\<close>

definition digits_val :: "string \<Rightarrow> nat" where
  "digits_val ds = foldl (\<lambda>acc c. 10 * acc + digit_val c) 0 ds"

definition all_digits :: "string \<Rightarrow> bool" where
  "all_digits ds = (ds \<noteq> [] \<and> list_all is_digit ds)"

text \<open>
  \<^verbatim>\<open>int(x)\<close> on a string: surrounding whitespace is ignored, one sign is allowed,
  and single underscores may separate groups of digits. \<open>None\<close> is the
  ValueError, which the interpreter also raises for more than 4300 digits.
\<close>

definition max_str_digits :: nat where
  "max_str_digits = 4300"

definition py_nat :: "string \<Rightarrow> nat option" where
  "py_nat s = (let groups = split_on (CHR ''_'') s in
      if list_all all_digits groups \<and> length (concat groups) \<le> max_str_digits
      then Some (digits_val (concat groups)) else None)"

definition py_int :: "string \<Rightarrow> int option" where
  "py_int x = (case strip x of
       [] \<Rightarrow> None
     | c # r \<Rightarrow>
        (if c = CHR ''-'' then map_option (\<lambda>n. - int n) (py_nat r)
         else if c = CHR ''+'' then map_option int (py_nat r)
         else map_option int (py_nat (c # r))))"

fun py_ints :: "string list \<Rightarrow> int list option" where
  "py_ints [] = Some []"
| "py_ints (x # xs) =
     (case py_int x of
        None \<Rightarrow> None
      | Some n \<Rightarrow> (case py_ints xs of None \<Rightarrow> None | Some ns \<Rightarrow> Some (n # ns)))"

section \<open>Table cells\<close>

text \<open>
  A cell of a table is missing (\<open>Null\<close>: NaN, None, NA and NaT alike, which
  \<^verbatim>\<open>isna\<close> does not tell apart), a finite number, a string or a timestamp
  (nanoseconds since the epoch). Numbers are exact rationals: rounding and
  overflow of binary floating point are not part of the model.
\<close>

datatype cell = Null | Num rat | Str string | Ts int

datatype error = AttributeError | TypeError | ValueError

section \<open>Durations\<close>

text \<open>
  The pattern \<^verbatim>\<open>^P(?:T(?:(\d+)H)?(?:(\d+)M)?(?:(\d+)S)?)$\<close>: after \<open>PT\<close> come up to
  three optional fields in the order H, M, S, each a non-empty run of digits and
  its letter. A run of digits is followed by a letter or by the end, so the
  longest run is the only one that can match.
\<close>

definition take_field :: "char \<Rightarrow> string \<Rightarrow> string option \<times> string" where
  "take_field letter s =
     (let ds = takeWhile is_digit s; rest = dropWhile is_digit s in
      (case rest of
         c # rest' \<Rightarrow> if ds \<noteq> [] \<and> c = letter then (Some ds, rest') else (None, s)
       | [] \<Rightarrow> (None, s)))"

definition ISO8601_DURATION_RE :: "string \<Rightarrow> (string option \<times> string option \<times> string option) option" where
  "ISO8601_DURATION_RE s =
     (case s of
        p # t # r0 \<Rightarrow>
          if p = CHR ''P'' \<and> t = CHR ''T'' then
            (let (h, r1) = take_field (CHR ''H'') r0;
                 (m, r2) = take_field (CHR ''M'') r1;
                 (sec, r3) = take_field (CHR ''S'') r2
             in if r3 = [] then Some (h, m, sec) else None)
          else None
      | _ \<Rightarrow> None)"

text \<open>\<^verbatim>\<open>int(m.group(name) or 0)\<close>: outside the \<^verbatim>\<open>try\<close> block, so the ValueError
  for a run of more than 4300 digits leaves the function.\<close>

definition group_int :: "string option \<Rightarrow> error + int" where
  "group_int g =
     (case g of
        None \<Rightarrow> Inr 0
      | Some ds \<Rightarrow> if length ds \<le> max_str_digits then Inr (int (digits_val ds)) else Inl ValueError)"

text \<open>
  \<^verbatim>\<open>iso8601_duration_to_seconds\<close>. \<open>Inr None\<close> is the returned None;
  \<open>Inl AttributeError\<close> is the exception raised by \<^verbatim>\<open>m.group\<close> when \<open>m\<close> is None,
  reached when the colon form has no branch for the number of parts.
\<close>

definition iso8601_duration_to_seconds :: "cell \<Rightarrow> error + int option" where
  "iso8601_duration_to_seconds v =
     (case v of
        Str s0 \<Rightarrow>
          (let s = upper (strip s0) in
           case ISO8601_DURATION_RE s of
             Some (h, m, sec) \<Rightarrow>
               (case group_int h of
                  Inl e \<Rightarrow> Inl e
                | Inr hours \<Rightarrow>
                    (case group_int m of
                       Inl e \<Rightarrow> Inl e
                     | Inr minutes \<Rightarrow>
                         (case group_int sec of
                            Inl e \<Rightarrow> Inl e
                          | Inr seconds \<Rightarrow> Inr (Some (hours * 3600 + minutes * 60 + seconds)))))
           | None \<Rightarrow>
               (case py_ints (split_on (CHR '':'') s) of
                  None \<Rightarrow> Inr None
                | Some parts \<Rightarrow>
                    if length parts = 3 then
                      Inr (Some (parts ! 0 * 3600 + parts ! 1 * 60 + parts ! 2))
                    else if length parts = 2 then
                      Inr (Some (parts ! 0 * 60 + parts ! 1))
                    else if length parts = 1 then
                      Inr (Some (parts ! 0))
                    else Inl AttributeError))
      | _ \<Rightarrow> Inr None)"

section \<open>Tables\<close>

text \<open>
  A table is its row labels (the index) and its columns in order, each a label
  and one cell per row. Label lookup takes the first column of that name; the
  theorems below are about tables whose labels are distinct and whose columns
  have one cell per row (\<open>wf_frame\<close>), which is what the CSV reader produces.
\<close>

record frame =
  idx :: "nat list"
  cols :: "(string \<times> cell list) list"

definition nrows :: "frame \<Rightarrow> nat" where
  "nrows df = length (idx df)"

definition columns :: "frame \<Rightarrow> string list" where
  "columns df = map fst (cols df)"

definition has_col :: "frame \<Rightarrow> string \<Rightarrow> bool" where
  "has_col df c = (c \<in> set (columns df))"

text \<open>\<^verbatim>\<open>df[c]\<close> for a label that is present.\<close>

definition col :: "frame \<Rightarrow> string \<Rightarrow> cell list" where
  "col df c = (case map_of (cols df) c of Some xs \<Rightarrow> xs | None \<Rightarrow> [])"

text \<open>\<^verbatim>\<open>df[c] = xs\<close>: an existing column is replaced where it stands, a new one goes last.\<close>

fun assign_cols :: "(string \<times> cell list) list \<Rightarrow> string \<Rightarrow> cell list \<Rightarrow> (string \<times> cell list) list" where
  "assign_cols [] c xs = [(c, xs)]"
| "assign_cols ((n, ys) # rest) c xs =
     (if n = c then (c, xs) # rest else (n, ys) # assign_cols rest c xs)"

definition assign :: "frame \<Rightarrow> string \<Rightarrow> cell list \<Rightarrow> frame" where
  "assign df c xs = df\<lparr>cols := assign_cols (cols df) c xs\<rparr>"

text \<open>\<^verbatim>\<open>df[c] = v\<close> for a scalar \<open>v\<close>.\<close>

definition assign_scalar :: "frame \<Rightarrow> string \<Rightarrow> cell \<Rightarrow> frame" where
  "assign_scalar df c v = assign df c (replicate (nrows df) v)"

definition wf_frame :: "frame \<Rightarrow> bool" where
  "wf_frame df = (distinct (columns df) \<and> list_all (\<lambda>(n, xs). length xs = nrows df) (cols df))"

definition isna :: "cell \<Rightarrow> bool" where
  "isna v = (v = Null)"

definition fillna :: "cell \<Rightarrow> cell list \<Rightarrow> cell list" where
  "fillna v xs = map (\<lambda>x. if isna x then v else x) xs"

text \<open>
  What the library does with text is a parameter of the model: reading a
  number or a date out of a string and printing a scalar that is not a string.
  \<open>to_datetime\<close> sees the whole column as well as the cell, since the date
  format may be inferred from the column. Numbers are exact in the model;
  where the machine product of two numbers leaves the 64-bit integer range,
  the column's type decides what comes out (a wrapped integer, a rounded
  float), and \<open>mul_overflow\<close> stands for that result.
\<close>

record lib =
  to_numeric :: "cell \<Rightarrow> rat option"
  to_datetime :: "bool \<Rightarrow> cell list \<Rightarrow> cell \<Rightarrow> int option"
  str_of :: "cell \<Rightarrow> string"
  mul_overflow :: "rat \<Rightarrow> rat \<Rightarrow> cell"

text \<open>\<^verbatim>\<open>str(v)\<close>, as \<^verbatim>\<open>astype(str)\<close> and an f-string apply it.\<close>

definition py_str :: "lib \<Rightarrow> cell \<Rightarrow> string" where
  "py_str L v = (case v of Str s \<Rightarrow> s | _ \<Rightarrow> str_of L v)"

text \<open>\<^verbatim>\<open>pd.to_numeric(s, errors="coerce")\<close>, cell by cell.\<close>

definition pd_to_numeric :: "lib \<Rightarrow> cell list \<Rightarrow> cell list" where
  "pd_to_numeric L xs =
     map (\<lambda>v. case v of Null \<Rightarrow> Null | Num r \<Rightarrow> Num r
              | _ \<Rightarrow> (case to_numeric L v of Some r \<Rightarrow> Num r | None \<Rightarrow> Null)) xs"

text \<open>\<^verbatim>\<open>pd.to_datetime(s, errors="coerce", utc=u)\<close>.\<close>

definition pd_to_datetime :: "lib \<Rightarrow> bool \<Rightarrow> cell list \<Rightarrow> cell list" where
  "pd_to_datetime L u xs =
     map (\<lambda>v. case v of Null \<Rightarrow> Null | Ts t \<Rightarrow> Ts t
              | _ \<Rightarrow> (case to_datetime L u xs v of Some t \<Rightarrow> Ts t | None \<Rightarrow> Null)) xs"

section \<open>The cleaner: utilities\<close>

definition is_Str :: "cell \<Rightarrow> bool" where
  "is_Str v = (case v of Str _ \<Rightarrow> True | _ \<Rightarrow> False)"

text \<open>A column has dtype \<^verbatim>\<open>object\<close> when it holds text.\<close>

definition is_object :: "cell list \<Rightarrow> bool" where
  "is_object xs = list_ex is_Str xs"

text \<open>
  The two \<^verbatim>\<open>str.replace\<close> calls of \<^verbatim>\<open>coerce_numeric_series\<close>: commas become
  periods, then every character other than a digit, a period or a minus goes.
\<close>

definition clean_numeric_text :: "string \<Rightarrow> string" where
  "clean_numeric_text s =
     filter (\<lambda>c. is_digit c \<or> c = CHR ''.'' \<or> c = CHR ''-'')
            (map (\<lambda>c. if c = CHR '','' then CHR ''.'' else c) s)"

text \<open>In an object column the \<^verbatim>\<open>.str\<close> methods turn every cell that is not text into NaN.\<close>

definition coerce_numeric_series :: "lib \<Rightarrow> cell list \<Rightarrow> cell list" where
  "coerce_numeric_series L s =
     (if is_object s
      then pd_to_numeric L (map (\<lambda>v. case v of Str t \<Rightarrow> Str (clean_numeric_text t) | _ \<Rightarrow> Null) s)
      else pd_to_numeric L s)"

text \<open>The numbers of a column, nulls dropped.\<close>

fun nums :: "cell list \<Rightarrow> rat list" where
  "nums [] = []"
| "nums (Num r # xs) = r # nums xs"
| "nums (_ # xs) = nums xs"

text \<open>\<^verbatim>\<open>Series.median(skipna=True)\<close>; \<open>None\<close> is NaN, the median of nothing.\<close>

definition median :: "rat list \<Rightarrow> rat option" where
  "median vs =
     (let s = sort vs; n = length s in
      if n = 0 then None
      else if odd n then Some (s ! (n div 2))
      else Some ((s ! (n div 2 - 1) + s ! (n div 2)) / 2))"

text \<open>
  \<^verbatim>\<open>Series.quantile(q)\<close> with linear interpolation, on a non-empty list of
  numbers: position \<open>q * (n - 1)\<close> in the sorted values.
\<close>

definition quantile :: "rat \<Rightarrow> rat list \<Rightarrow> rat" where
  "quantile q vs =
     (let s = sort vs; n = length s;
          pos = q * of_nat (n - 1);
          lo = nat \<lfloor>pos\<rfloor>;
          hi = min (lo + 1) (n - 1);
          frac = pos - of_nat lo
      in s ! lo + (s ! hi - s ! lo) * frac)"

definition clip :: "rat \<Rightarrow> rat \<Rightarrow> cell list \<Rightarrow> cell list" where
  "clip low high xs = map (\<lambda>v. case v of Num r \<Rightarrow> Num (min (max r low) high) | _ \<Rightarrow> v) xs"

text \<open>\<^verbatim>\<open>int(x)\<close> of a number truncates towards zero.\<close>

definition py_trunc :: "rat \<Rightarrow> int" where
  "py_trunc x = (if x \<ge> 0 then \<lfloor>x\<rfloor> else \<lceil>x\<rceil>)"

definition is_Num :: "cell \<Rightarrow> bool" where
  "is_Num v = (case v of Num _ \<Rightarrow> True | _ \<Rightarrow> False)"

definition is_Ts :: "cell \<Rightarrow> bool" where
  "is_Ts v = (case v of Ts _ \<Rightarrow> True | _ \<Rightarrow> False)"

text \<open>The timestamps of a column, nulls dropped, and clipping of timestamps.\<close>

fun stamps :: "cell list \<Rightarrow> rat list" where
  "stamps [] = []"
| "stamps (Ts t # xs) = of_int t # stamps xs"
| "stamps (_ # xs) = stamps xs"

definition clip_ts :: "int \<Rightarrow> int \<Rightarrow> cell list \<Rightarrow> cell list" where
  "clip_ts low high xs = map (\<lambda>v. case v of Ts t \<Rightarrow> Ts (min (max t low) high) | _ \<Rightarrow> v) xs"

text \<open>
  \<^verbatim>\<open>cap_outliers_iqr\<close> with its default quantiles 0.01 and 0.99. A column that
  still holds text after \<^verbatim>\<open>dropna\<close>, or numbers mixed with timestamps, makes
  \<^verbatim>\<open>quantile\<close> raise. The quantiles of a timestamp column are taken on its
  nanosecond values and are timestamps again.
\<close>

definition cap_outliers_iqr :: "cell list \<Rightarrow> error + cell list" where
  "cap_outliers_iqr s =
     (if list_all isna s then Inr s
      else if list_ex is_Str s \<or> (list_ex is_Ts s \<and> list_ex is_Num s) then Inl TypeError
      else if list_ex is_Ts s
      then (let low = py_trunc (quantile (1 / 100) (stamps s));
                high = py_trunc (quantile (99 / 100) (stamps s))
            in Inr (clip_ts low high s))
      else (let low = quantile (1 / 100) (nums s);
                high = quantile (99 / 100) (nums s)
            in Inr (clip low high s)))"

section \<open>The cleaner: \<^verbatim>\<open>clean_dataframe\<close>, step by step\<close>

fun starts_with :: "string \<Rightarrow> string \<Rightarrow> bool" where
  "starts_with [] s = True"
| "starts_with (p # ps) [] = False"
| "starts_with (p # ps) (c # cs) = (p = c \<and> starts_with ps cs)"

text \<open>\<^verbatim>\<open>sub in s\<close> on strings.\<close>

fun contains :: "string \<Rightarrow> string \<Rightarrow> bool" where
  "contains sub [] = (sub = [])"
| "contains sub (c # cs) = (starts_with sub (c # cs) \<or> contains sub cs)"

text \<open>Step 1: columns whose label carries a provenance or metadata marker are dropped.\<close>

definition cols_to_drop :: "frame \<Rightarrow> string list" where
  "cols_to_drop df =
     filter (\<lambda>c. contains ''_source_file'' c \<or> contains ''metadata'' (lower c)) (columns df)"

text \<open>\<^verbatim>\<open>df.drop(columns=cs, errors="ignore")\<close>\<close>

definition drop_columns :: "string list \<Rightarrow> frame \<Rightarrow> frame" where
  "drop_columns cs df = df\<lparr>cols := filter (\<lambda>(n, xs). n \<notin> set cs) (cols df)\<rparr>"

definition drop_metadata_columns :: "frame \<Rightarrow> frame" where
  "drop_metadata_columns df =
     (if cols_to_drop df \<noteq> [] then drop_columns (cols_to_drop df) df else df)"

text \<open>Step 2: \<^verbatim>\<open>df.columns = [c.strip() for c in df.columns]\<close>.\<close>

definition strip_column_names :: "frame \<Rightarrow> frame" where
  "strip_column_names df = df\<lparr>cols := map (\<lambda>(n, xs). (strip n, xs)) (cols df)\<rparr>"

text \<open>Step 3: the alias table of genders.\<close>

definition gender_mapping :: "(string \<times> string) list" where
  "gender_mapping =
     [(''f'', ''female''), (''female'', ''female''), (''woman'', ''female''), (''femme'', ''female''),
      (''m'', ''male''), (''male'', ''male''), (''man'', ''male''), (''homme'', ''male''),
      (''0'', ''unknown''), (''1'', ''unknown''), (''nan'', ''unknown'')]"

text \<open>\<^verbatim>\<open>.astype(str).str.lower().str.strip().map(mapping)\<close> on one cell; a key that is
  not in the table gives NaN.\<close>

definition map_gender :: "lib \<Rightarrow> cell \<Rightarrow> cell" where
  "map_gender L v =
     (case map_of gender_mapping (strip (lower (py_str L v))) of
        Some g \<Rightarrow> Str g
      | None \<Rightarrow> Null)"

definition normalize_gender :: "lib \<Rightarrow> frame \<Rightarrow> frame" where
  "normalize_gender L df =
     (if has_col df ''student_gender''
      then assign df ''student_gender''
             (fillna (Str ''unknown'') (map (map_gender L) (col df ''student_gender'')))
      else assign_scalar df ''student_gender'' (Str ''unknown''))"

text \<open>Step 4: numeric coercion of the candidate columns that are present, in order.\<close>

definition numeric_candidates :: "string list" where
  "numeric_candidates =
     [''watch_time'', ''duration_sec'', ''duration'', ''views'', ''engagement'', ''student_age'',
      ''hours_studied'', ''assignments_completed'', ''participation'']"

definition coerce_numeric_columns :: "lib \<Rightarrow> frame \<Rightarrow> frame" where
  "coerce_numeric_columns L df =
     foldl (\<lambda>d c. if has_col d c then assign d c (coerce_numeric_series L (col d c)) else d)
           df numeric_candidates"

text \<open>
  Step 5: where \<open>duration\<close> has a value, \<open>duration_sec\<close> is rebuilt row by row:
  the value it has, or else the duration parsed from the \<open>duration\<close> cell.
  \<^verbatim>\<open>r.get("duration_sec")\<close> is None when the column is absent.
\<close>

fun collect :: "(error + 'a) list \<Rightarrow> error + 'a list" where
  "collect [] = Inr []"
| "collect (Inl e # xs) = Inl e"
| "collect (Inr v # xs) = (case collect xs of Inl e \<Rightarrow> Inl e | Inr vs \<Rightarrow> Inr (v # vs))"

definition duration_row :: "cell \<Rightarrow> cell \<Rightarrow> error + cell" where
  "duration_row ds d =
     (if \<not> isna ds then Inr ds
      else (case iso8601_duration_to_seconds d of
              Inl e \<Rightarrow> Inl e
            | Inr None \<Rightarrow> Inr Null
            | Inr (Some n) \<Rightarrow> Inr (Num (of_int n))))"

definition fill_duration_sec :: "frame \<Rightarrow> error + frame" where
  "fill_duration_sec df =
     (if has_col df ''duration'' \<and> list_ex (\<lambda>v. \<not> isna v) (col df ''duration'')
      then (let ds = (if has_col df ''duration_sec'' then col df ''duration_sec''
                      else replicate (nrows df) Null)
            in case collect (map2 duration_row ds (col df ''duration'')) of
                 Inl e \<Rightarrow> Inl e
               | Inr xs \<Rightarrow> Inr (assign df ''duration_sec'' xs))
      else Inr df)"

definition ensure_duration_numeric :: "lib \<Rightarrow> frame \<Rightarrow> frame" where
  "ensure_duration_numeric L df =
     (if has_col df ''duration_sec''
      then assign df ''duration_sec'' (pd_to_numeric L (col df ''duration_sec''))
      else df)"

text \<open>Step 6: the unit of \<open>watch_time\<close> is read off its median.\<close>

definition int64_range :: "rat \<Rightarrow> bool" where
  "int64_range r = (- (2 ^ 63) \<le> r \<and> r < 2 ^ 63)"

text \<open>\<^verbatim>\<open>x * 60\<close> on one cell of a numeric column.\<close>

definition times60 :: "lib \<Rightarrow> cell \<Rightarrow> cell" where
  "times60 L v =
     (case v of
        Num r \<Rightarrow> if int64_range (r * 60) then Num (r * 60) else mul_overflow L r 60
      | _ \<Rightarrow> Null)"

definition is_minutes :: "rat option \<Rightarrow> bool" where
  "is_minutes median_watch =
     (case median_watch of None \<Rightarrow> False | Some m \<Rightarrow> m > 0 \<and> m < 100)"

definition normalize_watch_time :: "lib \<Rightarrow> frame \<Rightarrow> frame" where
  "normalize_watch_time L df =
     (if has_col df ''watch_time''
      then (let median_watch = median (nums (col df ''watch_time'')) in
            if is_minutes median_watch
            then assign df ''watch_time_sec'' (map (times60 L) (col df ''watch_time''))
            else assign df ''watch_time_sec'' (col df ''watch_time''))
      else df)"

text \<open>Step 7: the timestamp column.\<close>

definition parse_timestamp :: "lib \<Rightarrow> frame \<Rightarrow> frame" where
  "parse_timestamp L df =
     (if has_col df ''timestamp''
      then assign df ''timestamp'' (pd_to_datetime L True (col df ''timestamp''))
      else if has_col df ''published_at''
      then assign df ''timestamp'' (pd_to_datetime L True (col df ''published_at''))
      else assign_scalar df ''timestamp'' Null)"

text \<open>\<^verbatim>\<open>str(n)\<close> for a row label.\<close>

definition digit_char :: "nat \<Rightarrow> char" where
  "digit_char d = char_of (48 + d)"

function dec :: "nat \<Rightarrow> string" where
  "dec n = (if n < 10 then [digit_char n] else dec (n div 10) @ [digit_char (n mod 10)])"
  by pat_completeness auto
termination
  by (relation "measure id") auto

declare dec.simps [simp del]

text \<open>
  Step 8 (and the last step of the unifier): the synthetic identifier
  \<^verbatim>\<open>f"{r.get('source_file','unknown')}_{r.name}"\<close> of every row.
\<close>

definition synthetic_ids :: "lib \<Rightarrow> frame \<Rightarrow> cell list" where
  "synthetic_ids L df =
     (let src = (if has_col df ''source_file'' then col df ''source_file''
                 else replicate (nrows df) (Str ''unknown''))
      in map2 (\<lambda>s i. Str (py_str L s @ ''_'' @ dec i)) src (idx df))"

definition create_student_id :: "lib \<Rightarrow> frame \<Rightarrow> frame" where
  "create_student_id L df =
     (if \<not> has_col df ''student_id'' \<or> list_all isna (col df ''student_id'')
      then assign df ''student_id'' (synthetic_ids L df)
      else df)"

text \<open>
  Step 9: derived features. Division follows IEEE arithmetic, so a zero
  denominator gives an infinity or NaN, and a quotient too large for a
  binary64 float (from \<open>2 ^ 1024 - 2 ^ 970\<close> on, where rounding to nearest
  leaves the finite range) gives an infinity; \<^verbatim>\<open>.replace([inf, -inf], nan)\<close>
  then turns the infinities into NaN.
\<close>

datatype flt = Fin rat | PInf | NInf | NaN

definition float_overflow :: rat where
  "float_overflow = 2 ^ 1024 - 2 ^ 970"

definition truediv :: "cell \<Rightarrow> cell \<Rightarrow> flt" where
  "truediv a b =
     (case (a, b) of
        (Num x, Num y) \<Rightarrow>
          if y \<noteq> 0 then
            (if x / y \<ge> float_overflow then PInf
             else if x / y \<le> - float_overflow then NInf
             else Fin (x / y))
          else if x > 0 then PInf
          else if x < 0 then NInf
          else NaN
      | _ \<Rightarrow> NaN)"

definition replace_inf :: "flt \<Rightarrow> cell" where
  "replace_inf f = (case f of Fin r \<Rightarrow> Num r | PInf \<Rightarrow> Null | NInf \<Rightarrow> Null | NaN \<Rightarrow> Null)"

definition safe_ratio :: "cell list \<Rightarrow> cell list \<Rightarrow> cell list" where
  "safe_ratio xs ys = map2 (\<lambda>a b. replace_inf (truediv a b)) xs ys"

text \<open>Dividing a text column raises TypeError.\<close>

definition add_completion_rate :: "frame \<Rightarrow> error + frame" where
  "add_completion_rate df =
     (let df1 = assign_scalar df ''completion_rate'' Null in
      if has_col df1 ''watch_time_sec'' \<and> has_col df1 ''duration_sec''
      then (if list_ex is_Str (col df1 ''watch_time_sec'') \<or> list_ex is_Str (col df1 ''duration_sec'')
            then Inl TypeError
            else Inr (assign df1 ''completion_rate''
                        (safe_ratio (col df1 ''watch_time_sec'') (col df1 ''duration_sec''))))
      else Inr df1)"

definition add_engagement_rate :: "frame \<Rightarrow> frame" where
  "add_engagement_rate df =
     (if has_col df ''engagement'' \<and> has_col df ''duration_sec''
      then assign df ''engagement_rate'' (safe_ratio (col df ''engagement'') (col df ''duration_sec''))
      else if has_col df ''engagement''
      then assign df ''engagement_rate'' (col df ''engagement'')
      else df)"

definition flag :: "bool \<Rightarrow> cell" where
  "flag b = (if b then Num 1 else Num 0)"

definition add_is_engaged :: "frame \<Rightarrow> frame" where
  "add_is_engaged df =
     (if has_col df ''participation''
      then assign df ''is_engaged''
             (map (\<lambda>v. case v of Num x \<Rightarrow> flag (x > 0) | _ \<Rightarrow> flag False)
                  (fillna (Num 0) (col df ''participation'')))
      else assign df ''is_engaged''
             (map (\<lambda>v. case v of Num x \<Rightarrow> flag (x \<ge> 1 / 2) | _ \<Rightarrow> flag False)
                  (fillna (Num 0) (col df ''completion_rate''))))"

definition hour_of :: "cell \<Rightarrow> cell" where
  "hour_of v = (case v of Ts t \<Rightarrow> Num (of_int ((t div 3600000000000) mod 24)) | _ \<Rightarrow> Null)"

definition weekday_of :: "cell \<Rightarrow> cell" where
  "weekday_of v = (case v of Ts t \<Rightarrow> Num (of_int ((t div 86400000000000 + 3) mod 7)) | _ \<Rightarrow> Null)"

definition add_time_features :: "frame \<Rightarrow> frame" where
  "add_time_features df =
     (let df1 = assign df ''hour'' (map hour_of (col df ''timestamp''))
      in assign df1 ''weekday'' (map weekday_of (col df1 ''timestamp'')))"

definition feature_engineering :: "frame \<Rightarrow> error + frame" where
  "feature_engineering df =
     (case add_completion_rate df of
        Inl e \<Rightarrow> Inl e
      | Inr df1 \<Rightarrow> Inr (add_time_features (add_is_engaged (add_engagement_rate df1))))"

text \<open>
  Step 10: \<^verbatim>\<open>drop_duplicates(subset=key_cols, keep="first")\<close>. The key of a row is
  its cells in the key columns; missing values compare equal to each other.
\<close>

definition key_cols :: "frame \<Rightarrow> string list" where
  "key_cols df = filter (has_col df) [''student_id'', ''course_name'', ''timestamp'']"

definition row_keys :: "frame \<Rightarrow> string list \<Rightarrow> cell list list" where
  "row_keys df ks = map (\<lambda>i. map (\<lambda>c. col df c ! i) ks) [0..<nrows df]"

fun first_seen :: "'k list \<Rightarrow> 'k list \<Rightarrow> bool list" where
  "first_seen seen [] = []"
| "first_seen seen (k # ks) = (k \<notin> set seen) # first_seen (k # seen) ks"

definition pick :: "bool list \<Rightarrow> 'a list \<Rightarrow> 'a list" where
  "pick keep xs = map snd (filter fst (zip keep xs))"

definition select_rows :: "bool list \<Rightarrow> frame \<Rightarrow> frame" where
  "select_rows keep df =
     df\<lparr>idx := pick keep (idx df), cols := map (\<lambda>(n, xs). (n, pick keep xs)) (cols df)\<rparr>"

definition drop_duplicates :: "string list \<Rightarrow> frame \<Rightarrow> frame" where
  "drop_duplicates ks df = select_rows (first_seen [] (row_keys df ks)) df"

definition remove_duplicates :: "frame \<Rightarrow> frame" where
  "remove_duplicates df =
     (if key_cols df \<noteq> [] then drop_duplicates (key_cols df) df else df)"

text \<open>Step 11: capping of the three columns, those present, in order.\<close>

fun cap_columns :: "string list \<Rightarrow> frame \<Rightarrow> error + frame" where
  "cap_columns [] df = Inr df"
| "cap_columns (c # cs) df =
     (if has_col df c
      then (case cap_outliers_iqr (col df c) of
              Inl e \<Rightarrow> Inl e
            | Inr xs \<Rightarrow> cap_columns cs (assign df c xs))
      else cap_columns cs df)"

definition capped_columns :: "string list" where
  "capped_columns = [''watch_time_sec'', ''duration_sec'', ''views'']"

text \<open>Step 12: missing values. \<^verbatim>\<open>int(x)\<close> truncates towards zero. The column
  \<open>student_gender\<close> is there since step 3, as \<open>timestamp\<close> is since step 7 and
  \<open>completion_rate\<close> since step 9, so reading them cannot fail.\<close>

definition fill_student_age :: "frame \<Rightarrow> frame" where
  "fill_student_age df =
     (if has_col df ''student_age''
      then (case median (nums (col df ''student_age'')) of
              None \<Rightarrow> df
            | Some m \<Rightarrow> assign df ''student_age''
                         (fillna (Num (of_int (py_trunc m))) (col df ''student_age'')))
      else df)"

definition numeric_fill_zero :: "string list" where
  "numeric_fill_zero = [''watch_time_sec'', ''duration_sec'', ''views'', ''engagement'']"

definition fill_missing :: "frame \<Rightarrow> frame" where
  "fill_missing df =
     (let df1 = fill_student_age df;
          df2 = assign df1 ''student_gender'' (fillna (Str ''unknown'') (col df1 ''student_gender''))
      in foldl (\<lambda>d c. if has_col d c then assign d c (fillna (Num 0) (col d c)) else d)
               df2 numeric_fill_zero)"

text \<open>The steps up to the derived features, then the rest.\<close>

definition prepare :: "lib \<Rightarrow> frame \<Rightarrow> error + frame" where
  "prepare L df =
     (case fill_duration_sec
             (coerce_numeric_columns L (normalize_gender L
                (strip_column_names (drop_metadata_columns df)))) of
        Inl e \<Rightarrow> Inl e
      | Inr df5 \<Rightarrow>
          feature_engineering
            (create_student_id L (parse_timestamp L
               (normalize_watch_time L (ensure_duration_numeric L df5)))))"

text \<open>The table as step 6 finds it (after steps 1 to 5) and the table as
  step 9 finds it (after steps 1 to 8); \<open>prepare\<close> is step 9 on the latter.\<close>

definition before_watch_time :: "lib \<Rightarrow> frame \<Rightarrow> error + frame" where
  "before_watch_time L df =
     (case fill_duration_sec
             (coerce_numeric_columns L (normalize_gender L
                (strip_column_names (drop_metadata_columns df)))) of
        Inl e \<Rightarrow> Inl e
      | Inr df5 \<Rightarrow> Inr (ensure_duration_numeric L df5))"

definition before_features :: "lib \<Rightarrow> frame \<Rightarrow> error + frame" where
  "before_features L df =
     (case before_watch_time L df of
        Inl e \<Rightarrow> Inl e
      | Inr d5 \<Rightarrow> Inr (create_student_id L (parse_timestamp L (normalize_watch_time L d5))))"

text \<open>The rows that de-duplication keeps.\<close>

definition dedup_mask :: "frame \<Rightarrow> bool list" where
  "dedup_mask df = first_seen [] (row_keys df (key_cols df))"

definition finish :: "frame \<Rightarrow> error + frame" where
  "finish df9 =
     (case cap_columns capped_columns (remove_duplicates df9) of
        Inl e \<Rightarrow> Inl e
      | Inr df11 \<Rightarrow> Inr (fill_missing df11))"

definition clean_dataframe :: "lib \<Rightarrow> frame \<Rightarrow> error + frame" where
  "clean_dataframe L df =
     (case prepare L df of
        Inl e \<Rightarrow> Inl e
      | Inr df9 \<Rightarrow> finish df9)"

section \<open>The unifier: \<^verbatim>\<open>unify_columns\<close>\<close>

text \<open>\<^verbatim>\<open>cols_low = {c.lower(): c for c in df.columns}\<close>: of two labels with the same
  lower-case form the later one stays.\<close>

definition cols_low :: "frame \<Rightarrow> string \<Rightarrow> string option" where
  "cols_low df = map_of (rev (map (\<lambda>c. (lower c, c)) (columns df)))"

fun find_column :: "(string \<Rightarrow> string option) \<Rightarrow> string list \<Rightarrow> string option" where
  "find_column low [] = None"
| "find_column low (v # vs) =
     (case low (lower v) of Some c \<Rightarrow> Some c | None \<Rightarrow> find_column low vs)"

definition alias_table :: "(string list \<times> string) list" where
  "alias_table =
     [([''student_id'', ''user_id'', ''id'', ''student''], ''student_id''),
      ([''gender'', ''sex'', ''student_gender''], ''student_gender''),
      ([''age'', ''student_age'', ''years''], ''student_age''),
      ([''course_id'', ''course'', ''course_name'', ''title''], ''course_name''),
      ([''watch_time'', ''watch_seconds'', ''watch_minutes'', ''watch''], ''watch_time''),
      ([''views'', ''view_count''], ''views''),
      ([''duration'', ''duration_sec'', ''duration_seconds''], ''duration_sec''),
      ([''engagement'', ''engagement_score'', ''engagement_rate''], ''engagement''),
      ([''timestamp'', ''time'', ''published_at'', ''date'', ''datetime''], ''timestamp'')]"

text \<open>The \<^verbatim>\<open>mapping\<close> dictionary, as the list of its assignments in order; \<^verbatim>\<open>if col:\<close>
  also skips an empty label.\<close>

definition build_mapping :: "frame \<Rightarrow> (string \<times> string) list" where
  "build_mapping df =
     concat (map (\<lambda>(variants, canon).
                    case find_column (cols_low df) variants of
                      Some c \<Rightarrow> if c \<noteq> [] then [(c, canon)] else []
                    | None \<Rightarrow> [])
                 alias_table)"

definition rename :: "(string \<times> string) list \<Rightarrow> frame \<Rightarrow> frame" where
  "rename m df =
     df\<lparr>cols := map (\<lambda>(n, xs). (case map_of (rev m) n of Some c \<Rightarrow> c | None \<Rightarrow> n, xs)) (cols df)\<rparr>"

definition required :: "string list" where
  "required =
     [''student_id'', ''student_gender'', ''student_age'', ''course_name'', ''watch_time'',
      ''duration_sec'', ''engagement'', ''timestamp'']"

definition add_required :: "frame \<Rightarrow> frame" where
  "add_required df = foldl (\<lambda>d c. if \<not> has_col d c then assign_scalar d c Null else d) df required"

definition coerce_basic :: "lib \<Rightarrow> frame \<Rightarrow> frame" where
  "coerce_basic L df =
     foldl (\<lambda>d c. if has_col d c then assign d c (pd_to_numeric L (col d c)) else d) df
           [''watch_time'', ''duration_sec'', ''engagement'', ''student_age'', ''views'']"

definition coerce_timestamp :: "lib \<Rightarrow> frame \<Rightarrow> frame" where
  "coerce_timestamp L df =
     (if has_col df ''timestamp''
      then assign df ''timestamp'' (pd_to_datetime L False (col df ''timestamp''))
      else df)"

text \<open>\<^verbatim>\<open>df.get("source", pd.NA)\<close> is the column \<open>source\<close>, or the missing value.\<close>

definition add_source_file :: "frame \<Rightarrow> frame" where
  "add_source_file df =
     (if has_col df ''_source_file'' then assign df ''source_file'' (col df ''_source_file'')
      else if has_col df ''source'' then assign df ''source_file'' (col df ''source'')
      else assign_scalar df ''source_file'' Null)"

definition ensure_student_id :: "lib \<Rightarrow> frame \<Rightarrow> frame" where
  "ensure_student_id L df =
     (if list_all isna (col df ''student_id'')
      then assign df ''student_id'' (synthetic_ids L df)
      else df)"

text \<open>\<^verbatim>\<open>list(dict.fromkeys(xs))\<close>: the first occurrence of every element, in order.\<close>

definition unique_in_order :: "'a list \<Rightarrow> 'a list" where
  "unique_in_order xs = rev (remdups (rev xs))"

text \<open>\<^verbatim>\<open>df[labels]\<close>: for every label in turn, the columns of that name.\<close>

definition select_columns :: "string list \<Rightarrow> frame \<Rightarrow> frame" where
  "select_columns labels df =
     df\<lparr>cols := concat (map (\<lambda>c. filter (\<lambda>(n, xs). n = c) (cols df)) labels)\<rparr>"

definition reorder :: "frame \<Rightarrow> frame" where
  "reorder df =
     (let keep = unique_in_order (required @ [''student_id'', ''source_file'', ''views'']);
          existing_keep = filter (has_col df) keep
      in select_columns (existing_keep @ filter (\<lambda>c. c \<notin> set existing_keep) (columns df)) df)"

text \<open>The table after renaming and creation of the canonical columns: the
  \<open>student_id\<close> column "after mapping" is read here.\<close>

definition mapped :: "frame \<Rightarrow> frame" where
  "mapped df =
     (let df1 = strip_column_names df;
          m = build_mapping df1
      in add_required (if m \<noteq> [] then rename m df1 else df1))"

definition unify_columns :: "lib \<Rightarrow> frame \<Rightarrow> frame" where
  "unify_columns L df =
     reorder (ensure_student_id L (add_source_file (coerce_timestamp L (coerce_basic L (mapped df)))))"

section \<open>A library instance for concrete runs\<close>

text \<open>
  Concrete runs need some instance of the library parameter. This one reads a
  number only from a string of digits, recognises no date and prints every
  value that is not a string as \<open>nan\<close>; the runs below use it on tables where
  the library has nothing to parse: numbers are already numbers and the text is
  labels. Out of the integer range it multiplies as a float column does.
\<close>

definition sample_lib :: lib where
  "sample_lib =
     \<lparr>to_numeric = (\<lambda>v. case v of Str s \<Rightarrow> map_option of_int (py_int s) | _ \<Rightarrow> None),
      to_datetime = (\<lambda>u xs v. None),
      str_of = (\<lambda>v. ''nan''),
      mul_overflow = (\<lambda>a b. Num (a * b))\<rparr>"

section \<open>Predicates used in the statements\<close>





text \<open>A column of numbers and missing values, as numeric coercion leaves it.\<close>

definition numeric_col :: "cell list \<Rightarrow> bool" where
  "numeric_col s = list_all (\<lambda>v. case v of Num _ \<Rightarrow> True | Null \<Rightarrow> True | _ \<Rightarrow> False) s"

section \<open>Sample tables\<close>

definition watch_sample :: frame where
  "watch_sample = \<lparr>idx = [0, 1, 2],
      cols = [(''student_id'', [Str ''a'', Str ''b'', Str ''c'']),
              (''watch_time'', [Num 30, Num 60, Num 45])]\<rparr>"

definition rate_sample :: frame where
  "rate_sample = \<lparr>idx = [0, 1],
      cols = [(''student_id'', [Str ''a'', Str ''b'']),
              (''watch_time'', [Num 3000, Num 300]),
              (''duration_sec'', [Num 0, Num 600])]\<rparr>"

definition gender_sample :: frame where
  "gender_sample = \<lparr>idx = [0, 1, 2, 3, 4, 5, 6],
      cols = [(''student_gender'',
               [Str ''F'', Str ''Homme'', Str ''1'', Str '' F '', Str ''HOMME  '',
                Str (''Woman'' @ [CHR 0xA0]), Str ''other''])]\<rparr>"

definition dup_sample :: frame where
  "dup_sample = \<lparr>idx = [0, 1, 2],
      cols = [(''student_id'', [Str ''s1'', Str ''s1'', Str ''s2'']),
              (''course_name'', [Null, Null, Str ''maths'']),
              (''timestamp'', [Null, Null, Null])]\<rparr>"

definition cap_sample :: frame where
  "cap_sample = \<lparr>idx = [0, 1, 2],
      cols = [(''student_id'', [Str ''a'', Str ''b'', Str ''c'']),
              (''duration_sec'', [Num 10, Num 20, Null])]\<rparr>"

text \<open>\<open>cap_sample\<close> as it stands after the steps up to the derived features.\<close>

definition cap_prepared :: frame where
  "cap_prepared = \<lparr>idx = [0, 1, 2],
      cols = [(''student_id'', [Str ''a'', Str ''b'', Str ''c'']),
              (''duration_sec'', [Num 10, Num 20, Null]),
              (''student_gender'', [Str ''unknown'', Str ''unknown'', Str ''unknown'']),
              (''timestamp'', [Null, Null, Null]),
              (''completion_rate'', [Null, Null, Null]),
              (''is_engaged'', [Num 0, Num 0, Num 0]),
              (''hour'', [Null, Null, Null]),
              (''weekday'', [Null, Null, Null])]\<rparr>"

text \<open>Batches for the unifier: one with an identifier missing in one row, one
  without any identifier (as the synthetic source), one without provenance tag.\<close>

definition partial_id_sample :: frame where
  "partial_id_sample = \<lparr>idx = [0, 1],
      cols = [(''id'', [Str ''a'', Null]),
              (''Gender'', [Str ''F'', Str ''Homme'']),
              (''_source_file'', [Str ''k.csv'', Str ''k.csv''])]\<rparr>"

definition synthetic_sample :: frame where
  "synthetic_sample = \<lparr>idx = [0, 1],
      cols = [(''first_name'', [Str ''x'', Str ''y'']),
              (''age'', [Num 20, Num 30]),
              (''_source_file'', [Str ''sim.csv'', Str ''sim.csv''])]\<rparr>"

definition untagged_sample :: frame where
  "untagged_sample = \<lparr>idx = [0, 1],
      cols = [(''id'', [Str ''v1'', Str ''v2'']),
              (''title'', [Str ''t1'', Str ''t2''])]\<rparr>"

text \<open>The output of the cleaner on \<open>cap_sample\<close>.\<close>

definition cap_cleaned :: frame where
  "cap_cleaned = \<lparr>idx = [0, 1, 2],
      cols = [(''student_id'', [Str ''a'', Str ''b'', Str ''c'']),
              (''duration_sec'', [Num (101 / 10), Num (199 / 10), Num 0]),
              (''student_gender'', [Str ''unknown'', Str ''unknown'', Str ''unknown'']),
              (''timestamp'', [Null, Null, Null]),
              (''completion_rate'', [Null, Null, Null]),
              (''is_engaged'', [Num 0, Num 0, Num 0]),
              (''hour'', [Null, Null, Null]),
              (''weekday'', [Null, Null, Null])]\<rparr>"

section \<open>The two functions on a store of table objects\<close>

text \<open>
  In the source a table is a mutable object and \<open>df\<close> is a reference to it.
  The store lists the objects by address. A statement of the source either
  changes the object \<open>df\<close> refers to (\<^verbatim>\<open>df[c] = ...\<close>, \<^verbatim>\<open>df.columns = ...\<close>) or
  builds a new object and rebinds \<open>df\<close> to it (\<^verbatim>\<open>df = df.copy()\<close>,
  \<^verbatim>\<open>df = df.drop(...)\<close>, \<^verbatim>\<open>df = df.rename(...)\<close>, \<^verbatim>\<open>df = df.drop_duplicates(...)\<close>,
  \<^verbatim>\<open>out = df[...]\<close>). The functions below run the statements of the source in
  order on the store, with the steps defined above as what each statement
  computes.
\<close>

type_synonym heap = "frame list"

definition in_place :: "(frame \<Rightarrow> frame) \<Rightarrow> nat \<Rightarrow> heap \<Rightarrow> heap" where
  "in_place f r h = h[r := f (h ! r)]"

definition new_object :: "(frame \<Rightarrow> frame) \<Rightarrow> nat \<Rightarrow> heap \<Rightarrow> nat \<times> heap" where
  "new_object f r h = (length h, h @ [f (h ! r)])"

text \<open>A statement that may raise: the exception leaves the function at once.\<close>

definition in_place_or_raise ::
  "(frame \<Rightarrow> error + frame) \<Rightarrow> nat \<Rightarrow> heap \<Rightarrow> (nat \<Rightarrow> heap \<Rightarrow> (error + nat) \<times> heap)
     \<Rightarrow> (error + nat) \<times> heap" where
  "in_place_or_raise f r h cont =
     (case f (h ! r) of
        Inl e \<Rightarrow> (Inl e, h)
      | Inr d \<Rightarrow> cont r (h[r := d]))"

definition finish_heap :: "nat \<Rightarrow> heap \<Rightarrow> (error + nat) \<times> heap" where
  "finish_heap df9 h9 =
     (let (df10, h10) = (if key_cols (h9 ! df9) \<noteq> []
                         then new_object (drop_duplicates (key_cols (h9 ! df9))) df9 h9
                         else (df9, h9))
      in in_place_or_raise (cap_columns capped_columns) df10 h10
           (\<lambda>df11 h11. (Inr df11, in_place fill_missing df11 h11)))"

definition clean_dataframe_heap :: "lib \<Rightarrow> nat \<Rightarrow> heap \<Rightarrow> (error + nat) \<times> heap" where
  "clean_dataframe_heap L df0 h0 =
     (let (df, h) = new_object id df0 h0;
          (df1, h1) = (if cols_to_drop (h ! df) \<noteq> []
                       then new_object (drop_columns (cols_to_drop (h ! df))) df h
                       else (df, h));
          h2 = in_place strip_column_names df1 h1;
          h3 = in_place (normalize_gender L) df1 h2;
          h4 = in_place (coerce_numeric_columns L) df1 h3
      in in_place_or_raise fill_duration_sec df1 h4
           (\<lambda>df5 h5.
              let h5' = in_place (ensure_duration_numeric L) df5 h5;
                  h6 = in_place (normalize_watch_time L) df5 h5';
                  h7 = in_place (parse_timestamp L) df5 h6;
                  h8 = in_place (create_student_id L) df5 h7
              in in_place_or_raise feature_engineering df5 h8 finish_heap))"

definition unify_columns_heap :: "lib \<Rightarrow> nat \<Rightarrow> heap \<Rightarrow> nat \<times> heap" where
  "unify_columns_heap L df0 h0 =
     (let (df, h) = new_object id df0 h0;
          h1 = in_place strip_column_names df h;
          (df2, h2) = (if build_mapping (h1 ! df) \<noteq> []
                       then new_object (rename (build_mapping (h1 ! df))) df h1
                       else (df, h1));
          h3 = in_place add_required df2 h2;
          h4 = in_place (coerce_basic L) df2 h3;
          h5 = in_place (coerce_timestamp L) df2 h4;
          h6 = in_place add_source_file df2 h5;
          h7 = in_place (ensure_student_id L) df2 h6
      in new_object reorder df2 h7)"

text \<open>The state of a run: \<open>r\<close> is an object made during the run, it holds \<open>g\<close>,
  and the objects that were there before the run are as they were.\<close>

definition tracks :: "heap \<Rightarrow> frame \<Rightarrow> nat \<Rightarrow> heap \<Rightarrow> bool" where
  "tracks h0 g r h =
     (length h0 \<le> r \<and> r < length h \<and> take (length h0) h = h0 \<and> h ! r = g)"

definition heap_sample :: heap where
  "heap_sample = [dup_sample, cap_sample]"

text \<open>The outcome of a run on the store agrees with the value \<open>res\<close>: the same
  exception, or a new object holding the same table; either way the objects
  that were there before are as they were.\<close>

definition agrees :: "heap \<Rightarrow> error + frame \<Rightarrow> (error + nat) \<times> heap \<Rightarrow> bool" where
  "agrees h0 res outcome =
     (case outcome of
        (Inl e, h) \<Rightarrow> res = Inl e \<and> take (length h0) h = h0
      | (Inr r, h) \<Rightarrow> (case res of Inr g \<Rightarrow> tracks h0 g r h | Inl e \<Rightarrow> False))"

section \<open>Facts about the string helpers\<close>



















section \<open>The duration pattern\<close>


















section \<open>Durations: what the parser returns\<close>



text \<open>
  C4. A string that is neither an ISO-8601 duration nor a colon-separated or
  bare-integer time should give None without raising. With four colon-separated
  integers the function leaves the \<^verbatim>\<open>try\<close> block without returning and then
  calls \<^verbatim>\<open>m.group\<close> on None: it raises AttributeError.
\<close>

theorem iso8601_four_parts_raises:
  "iso8601_duration_to_seconds (Str ''1:2:3:4'') = Inl AttributeError"
  by code_simp

lemma iso8601_abc_none:
  "iso8601_duration_to_seconds (Str ''abc'') = Inr None"
  by code_simp

section \<open>Facts about tables\<close>

lemma map_of_assign_cols_same: "map_of (assign_cols cs c xs) c = Some xs"
  by (induction cs c xs rule: assign_cols.induct) auto

lemma map_of_assign_cols_other: "c' \<noteq> c \<Longrightarrow> map_of (assign_cols cs c xs) c' = map_of cs c'"
  by (induction cs c xs rule: assign_cols.induct) auto

lemma fst_assign_cols: "fst ` set (assign_cols cs c xs) = insert c (fst ` set cs)"
  by (induction cs c xs rule: assign_cols.induct) auto

lemma col_assign_same: "col (assign df c xs) c = xs"
  by (simp add: col_def assign_def map_of_assign_cols_same)

lemma col_assign_other: "c' \<noteq> c \<Longrightarrow> col (assign df c xs) c' = col df c'"
  by (simp add: col_def assign_def map_of_assign_cols_other)

lemma has_col_assign: "has_col (assign df c xs) c' = (c' = c \<or> has_col df c')"
  by (simp add: has_col_def columns_def assign_def fst_assign_cols)

lemma col_assign_scalar_same: "col (assign_scalar df c v) c = replicate (nrows df) v"
  by (simp add: assign_scalar_def col_assign_same)

lemma col_assign_scalar_other: "c' \<noteq> c \<Longrightarrow> col (assign_scalar df c v) c' = col df c'"
  by (simp add: assign_scalar_def col_assign_other)

lemma has_col_assign_scalar: "has_col (assign_scalar df c v) c' = (c' = c \<or> has_col df c')"
  by (simp add: assign_scalar_def has_col_assign)

section \<open>Gender normalisation\<close>

lemma map_gender_range:
  "(if isna (map_gender L v) then Str ''unknown'' else map_gender L v)
     \<in> {Str ''female'', Str ''male'', Str ''unknown''}"
  by (auto simp: map_gender_def isna_def gender_mapping_def split: option.splits if_splits)

lemma gender_cells:
  "v \<in> set (fillna (Str ''unknown'') (map (map_gender L) xs)) \<Longrightarrow>
     v \<in> {Str ''female'', Str ''male'', Str ''unknown''}"
proof -
  assume "v \<in> set (fillna (Str ''unknown'') (map (map_gender L) xs))"
  then have "v \<in> (\<lambda>x. if isna (map_gender L x) then Str ''unknown'' else map_gender L x) ` set xs"
    by (simp add: fillna_def image_image)
  then obtain x where "v = (if isna (map_gender L x) then Str ''unknown'' else map_gender L x)"
    by blast
  then show ?thesis using map_gender_range[of L x] by simp
qed



section \<open>De-duplication\<close>

lemma pick_Nil [simp]: "pick [] xs = []" "pick bs [] = []"
  by (simp_all add: pick_def)

lemma pick_Cons [simp]: "pick (b # bs) (x # xs) = (if b then x # pick bs xs else pick bs xs)"
  by (simp add: pick_def)

lemma length_first_seen [simp]: "length (first_seen seen ks) = length ks"
  by (induction ks arbitrary: seen) auto

lemma first_seen_nth:
  "i < length ks \<Longrightarrow>
     first_seen seen ks ! i = (ks ! i \<notin> set seen \<and> (\<forall>j<i. ks ! j \<noteq> ks ! i))"
proof (induction ks arbitrary: seen i)
  case Nil
  then show ?case by simp
next
  case (Cons k ks)
  show ?case
  proof (cases i)
    case 0
    then show ?thesis by simp
  next
    case (Suc n)
    with Cons.prems have n: "n < length ks" by simp
    have "(\<forall>j<Suc n. (k # ks) ! j \<noteq> ks ! n) = (k \<noteq> ks ! n \<and> (\<forall>j<n. ks ! j \<noteq> ks ! n))"
      by (auto simp: less_Suc_eq_0_disj)
    with Cons.IH[OF n, of "k # seen"] Suc show ?thesis by auto
  qed
qed

lemma set_pick_first_seen: "set (pick (first_seen seen ks) ks) = set ks - set seen"
  by (induction ks arbitrary: seen) auto

lemma distinct_pick_first_seen: "distinct (pick (first_seen seen ks) ks)"
  by (induction ks arbitrary: seen) (auto simp: set_pick_first_seen)

lemma pick_map: "pick bs (map f xs) = map f (pick bs xs)"
proof (induction bs arbitrary: xs)
  case Nil
  then show ?case by simp
next
  case (Cons b bs)
  then show ?case by (cases xs) auto
qed

lemma pick_as_positions:
  "length bs = length xs \<Longrightarrow> pick bs xs = map (\<lambda>p. xs ! p) (pick bs [0..<length xs])"
proof (induction bs arbitrary: xs)
  case Nil
  then show ?case by simp
next
  case (Cons b bs)
  then obtain y ys where xs: "xs = y # ys" by (cases xs) auto
  with Cons.prems have l: "length bs = length ys" by simp
  have up: "[0..<Suc (length ys)] = 0 # map Suc [0..<length ys]"
    by (simp add: upt_conv_Cons map_Suc_upt del: upt_Suc)
  have pm: "pick bs (map Suc [0..<length ys]) = map Suc (pick bs [0..<length ys])"
    by (rule pick_map)
  have "pick (b # bs) (y # ys) = map (\<lambda>p. (y # ys) ! p) (pick (b # bs) (0 # map Suc [0..<length ys]))"
    using Cons.IH[OF l] by (simp add: pm o_def)
  then show ?case
    unfolding xs using up by simp
qed

lemma map_of_map_cols:
  "map_of (map (\<lambda>(n, xs). (n, f xs)) cs) c = map_option f (map_of cs c)"
  by (induction cs) auto

lemma col_select_rows: "col (select_rows keep df) c = pick keep (col df c)"
  by (simp add: col_def select_rows_def map_of_map_cols split: option.splits)

lemma columns_select_rows: "columns (select_rows keep df) = columns df"
  by (simp add: columns_def select_rows_def o_def split_def)

lemma has_col_select_rows: "has_col (select_rows keep df) c = has_col df c"
  by (simp add: has_col_def columns_select_rows)

lemma nrows_select_rows: "nrows (select_rows keep df) = length (pick keep (idx df))"
  by (simp add: nrows_def select_rows_def)

lemma wf_col_length: "wf_frame df \<Longrightarrow> has_col df c \<Longrightarrow> length (col df c) = nrows df"
proof -
  assume w: "wf_frame df" and h: "has_col df c"
  from h obtain xs where m: "map_of (cols df) c = Some xs"
    by (auto simp: has_col_def columns_def weak_map_of_SomeI dest!: weak_map_of_SomeI)
  then have "(c, xs) \<in> set (cols df)" by (rule map_of_SomeD)
  with w have "length xs = nrows df" by (auto simp: wf_frame_def list_all_iff)
  with m show ?thesis by (simp add: col_def)
qed

lemma row_keys_select_rows:
  assumes "wf_frame df" and "\<forall>c \<in> set ks. has_col df c" and "length keep = nrows df"
  shows "row_keys (select_rows keep df) ks = pick keep (row_keys df ks)"
proof -
  let ?n = "nrows df"
  let ?ps = "pick keep [0..<?n]"
  have li: "length keep = length (idx df)" using assms(3) by (simp add: nrows_def)
  have "length (pick keep (idx df)) = length (pick keep [0..<length (idx df)])"
    using pick_as_positions[OF li] by (metis length_map)
  then have n': "nrows (select_rows keep df) = length ?ps"
    unfolding nrows_def select_rows_def by simp
  have cl: "c \<in> set ks \<Longrightarrow> col (select_rows keep df) c = map (\<lambda>p. col df c ! p) ?ps" for c
  proof -
    assume "c \<in> set ks"
    with assms have l: "length (col df c) = ?n" by (simp add: wf_col_length)
    with assms(3) have "length keep = length (col df c)" by simp
    from pick_as_positions[OF this] l show ?thesis by (simp add: col_select_rows)
  qed
  have "row_keys (select_rows keep df) ks =
      map (\<lambda>i. map (\<lambda>c. col df c ! (?ps ! i)) ks) [0..<length ?ps]"
    unfolding row_keys_def n' by (auto simp: cl)
  also have "\<dots> = map (\<lambda>p. map (\<lambda>c. col df c ! p) ks) ?ps"
    by (rule nth_equalityI) simp_all
  also have "\<dots> = pick keep (row_keys df ks)"
    by (simp add: row_keys_def pick_map)
  finally show ?thesis .
qed

lemma length_row_keys [simp]: "length (row_keys df ks) = nrows df"
  by (simp add: row_keys_def)

lemma key_cols_present: "c \<in> set (key_cols df) \<Longrightarrow> has_col df c"
  unfolding key_cols_def set_filter by blast

text \<open>
  C3, as the code has it. De-duplication keeps a row exactly when no earlier
  row has the same (\<open>student_id\<close>, \<open>course_name\<close>, \<open>timestamp\<close>) key, all columns
  and the index keep the surviving rows in their order, and the surviving keys
  are pairwise different. Missing values are compared like any other value:
  two rows whose keys agree and hold nulls count as duplicates.
\<close>

theorem dedup_keeps_first:
  assumes "wf_frame df" and "key_cols df \<noteq> []"
  shows "\<exists>keep. length keep = nrows df
      \<and> (\<forall>i<nrows df. keep ! i =
            (\<forall>j<i. row_keys df (key_cols df) ! j \<noteq> row_keys df (key_cols df) ! i))
      \<and> idx (remove_duplicates df) = pick keep (idx df)
      \<and> (\<forall>c. col (remove_duplicates df) c = pick keep (col df c))
      \<and> row_keys (remove_duplicates df) (key_cols df) = pick keep (row_keys df (key_cols df))
      \<and> distinct (row_keys (remove_duplicates df) (key_cols df))"
proof -
  let ?ks = "key_cols df"
  let ?keys = "row_keys df ?ks"
  let ?keep = "first_seen [] ?keys"
  have out: "remove_duplicates df = select_rows ?keep df"
    using assms(2) by (simp add: remove_duplicates_def drop_duplicates_def)
  have l: "length ?keep = nrows df" by simp
  have a: "\<forall>i<nrows df. ?keep ! i = (\<forall>j<i. ?keys ! j \<noteq> ?keys ! i)"
    by (simp add: first_seen_nth)
  have b: "idx (remove_duplicates df) = pick ?keep (idx df)"
    by (simp add: out select_rows_def)
  have c: "\<forall>c. col (remove_duplicates df) c = pick ?keep (col df c)"
    by (simp add: out col_select_rows)
  have d: "row_keys (remove_duplicates df) ?ks = pick ?keep ?keys"
    unfolding out using assms(1) l by (intro row_keys_select_rows) (auto simp: key_cols_present)
  have e: "distinct (row_keys (remove_duplicates df) ?ks)"
    unfolding d by (rule distinct_pick_first_seen)
  from l a b c d e show ?thesis by blast
qed

lemma dup_sample_facts:
  "wf_frame dup_sample" "key_cols dup_sample = [''student_id'', ''course_name'', ''timestamp'']"
  by (simp_all add: wf_frame_def dup_sample_def columns_def nrows_def key_cols_def has_col_def)

lemma dup_sample_out:
  "remove_duplicates dup_sample = \<lparr>idx = [0, 2],
      cols = [(''student_id'', [Str ''s1'', Str ''s2'']),
              (''course_name'', [Null, Str ''maths'']),
              (''timestamp'', [Null, Null])]\<rparr>"
  by (simp add: remove_duplicates_def dup_sample_facts drop_duplicates_def row_keys_def)
     (simp add: dup_sample_def nrows_def col_def select_rows_def upt_rec)

theorem dedup_keeps_first_witness:
  "wf_frame dup_sample \<and> key_cols dup_sample \<noteq> []
   \<and> distinct (row_keys (remove_duplicates dup_sample) (key_cols dup_sample))
   \<and> idx (remove_duplicates dup_sample) = [0, 2]"
  using dedup_keeps_first[of dup_sample] dup_sample_facts dup_sample_out by auto

text \<open>
  The claim's exemption fails: row 1 of the sample has a null \<open>course_name\<close>
  and a null \<open>timestamp\<close>, and it is removed as a duplicate of row 0.
\<close>

theorem dedup_null_key_removed:
  "col dup_sample ''course_name'' ! 1 = Null
   \<and> 1 \<in> set (idx dup_sample)
   \<and> 1 \<notin> set (idx (remove_duplicates dup_sample))"
  by (simp add: dup_sample_out) (simp add: dup_sample_def col_def)

section \<open>Quantiles and capping\<close>

lemma interpolate_bounds:
  fixes a b f :: rat
  assumes "a \<le> b" "0 \<le> f" "f \<le> 1"
  shows "a \<le> a + (b - a) * f" and "a + (b - a) * f \<le> b"
proof -
  from assms have "0 \<le> (b - a) * f" by simp
  then show "a \<le> a + (b - a) * f" by simp
  from assms have "(b - a) * f \<le> (b - a) * 1" by (intro mult_left_mono) auto
  then show "a + (b - a) * f \<le> b" by simp
qed

lemma quantile_mono:
  assumes "vs \<noteq> []" and "0 \<le> q1" and "q1 \<le> q2" and "q2 \<le> 1"
  shows "quantile q1 vs \<le> quantile q2 vs"
proof -
  define s where "s = sort vs"
  define n where "n = length s"
  define p1 where "p1 = q1 * of_nat (n - 1)"
  define p2 where "p2 = q2 * of_nat (n - 1)"
  define l1 where "l1 = nat \<lfloor>p1\<rfloor>"
  define l2 where "l2 = nat \<lfloor>p2\<rfloor>"
  define h1 where "h1 = min (l1 + 1) (n - 1)"
  define h2 where "h2 = min (l2 + 1) (n - 1)"
  define f1 where "f1 = p1 - of_nat l1"
  define f2 where "f2 = p2 - of_nat l2"
  have srt: "sorted s" by (simp add: s_def)
  have npos: "0 < n" using assms(1) by (simp add: n_def s_def)
  have Q1: "quantile q1 vs = s ! l1 + (s ! h1 - s ! l1) * f1"
    by (simp add: quantile_def Let_def s_def n_def p1_def l1_def h1_def f1_def)
  have Q2: "quantile q2 vs = s ! l2 + (s ! h2 - s ! l2) * f2"
    by (simp add: quantile_def Let_def s_def n_def p2_def l2_def h2_def f2_def)
  have p10: "0 \<le> p1" using assms(2) by (simp add: p1_def)
  have p12: "p1 \<le> p2" using assms(3) by (simp add: p1_def p2_def mult_right_mono)
  have p2n: "p2 \<le> of_nat (n - 1)"
    using assms(4) mult_right_mono[of q2 1 "of_nat (n - 1)"] by (simp add: p2_def)
  have p20: "0 \<le> p2" using p10 p12 by simp
  have c1: "(of_nat l1 :: rat) = of_int \<lfloor>p1\<rfloor>" using p10 by (simp add: l1_def)
  have c2: "(of_nat l2 :: rat) = of_int \<lfloor>p2\<rfloor>" using p20 by (simp add: l2_def)
  have f1b: "0 \<le> f1" "f1 \<le> 1" unfolding f1_def c1 by linarith+
  have f2b: "0 \<le> f2" "f2 \<le> 1" unfolding f2_def c2 by linarith+
  have l12: "l1 \<le> l2" unfolding l1_def l2_def using p12 by (simp add: floor_mono nat_mono)
  have "\<lfloor>p2\<rfloor> \<le> \<lfloor>(of_nat (n - 1) :: rat)\<rfloor>" using p2n by (rule floor_mono)
  then have l2n: "l2 \<le> n - 1" by (simp add: l2_def)
  have h1n: "h1 < n" "l1 \<le> h1" using npos l12 l2n by (auto simp: h1_def)
  have h2n: "h2 < n" "l2 \<le> h2" using npos l2n by (auto simp: h2_def)
  have a1: "s ! l1 \<le> s ! h1" using srt h1n by (simp add: sorted_nth_mono n_def)
  have a2: "s ! l2 \<le> s ! h2" using srt h2n by (simp add: sorted_nth_mono n_def)
  show ?thesis
  proof (cases "l1 < l2")
    case True
    then have "h1 \<le> l2" by (simp add: h1_def)
    then have "s ! h1 \<le> s ! l2" using srt h2n by (simp add: sorted_nth_mono n_def)
    moreover have "quantile q1 vs \<le> s ! h1"
      unfolding Q1 using a1 f1b by (rule interpolate_bounds)
    moreover have "s ! l2 \<le> quantile q2 vs"
      unfolding Q2 using a2 f2b by (rule interpolate_bounds)
    ultimately show ?thesis by linarith
  next
    case False
    with l12 have e: "l1 = l2" by simp
    then have eh: "h1 = h2" by (simp add: h1_def h2_def)
    have "f1 \<le> f2" using p12 by (simp add: f1_def f2_def e)
    then have "(s ! h2 - s ! l2) * f1 \<le> (s ! h2 - s ! l2) * f2"
      using a2 by (intro mult_left_mono) auto
    then show ?thesis unfolding Q1 Q2 e eh by simp
  qed
qed

lemma nums_empty_iff: "(nums s = []) = list_all (\<lambda>v. case v of Num _ \<Rightarrow> False | _ \<Rightarrow> True) s"
  by (induction s rule: nums.induct) auto

lemma clip_nth:
  "i < length s \<Longrightarrow> clip low high s ! i =
     (case s ! i of Num r \<Rightarrow> Num (min (max r low) high) | v \<Rightarrow> v)"
  by (simp add: clip_def split: cell.splits)

lemma clip_range:
  fixes low high r :: rat
  assumes "low \<le> high"
  shows "low \<le> min (max r low) high" and "min (max r low) high \<le> high"
  using assms by auto

lemma cap_outliers_unchanged: "list_all isna s \<Longrightarrow> cap_outliers_iqr s = Inr s"
  by (simp add: cap_outliers_iqr_def)

lemma cap_outliers_numeric:
  assumes "numeric_col s" and "\<not> list_all isna s"
  shows "cap_outliers_iqr s = Inr (clip (quantile (1 / 100) (nums s)) (quantile (99 / 100) (nums s)) s)"
proof -
  have "\<not> list_ex is_Str s" "\<not> list_ex is_Ts s"
    using assms(1)
    by (auto simp: numeric_col_def list_all_iff list_ex_iff is_Str_def is_Ts_def split: cell.splits)
  with assms(2) show ?thesis by (simp add: cap_outliers_iqr_def Let_def)
qed

lemma nums_nonempty: "numeric_col s \<Longrightarrow> \<not> list_all isna s \<Longrightarrow> nums s \<noteq> []"
  by (induction s rule: nums.induct) (auto simp: numeric_col_def isna_def)

lemma cap_outliers_range:
  assumes "numeric_col s" and "\<not> list_all isna s" and "i < length s"
  shows "\<exists>out. cap_outliers_iqr s = Inr out \<and> length out = length s
     \<and> (s ! i = Null \<longrightarrow> out ! i = Null)
     \<and> (\<forall>r. s ! i = Num r \<longrightarrow>
          (\<exists>r'. out ! i = Num r' \<and> quantile (1 / 100) (nums s) \<le> r'
                 \<and> r' \<le> quantile (99 / 100) (nums s)))"
proof -
  let ?low = "quantile (1 / 100) (nums s)"
  let ?high = "quantile (99 / 100) (nums s)"
  have lh: "?low \<le> ?high"
    using nums_nonempty[OF assms(1,2)] by (intro quantile_mono) auto
  have o: "cap_outliers_iqr s = Inr (clip ?low ?high s)"
    using assms(1,2) by (rule cap_outliers_numeric)
  have "length (clip ?low ?high s) = length s" by (simp add: clip_def)
  moreover have "s ! i = Null \<longrightarrow> clip ?low ?high s ! i = Null"
    using assms(3) by (simp add: clip_nth)
  moreover have "\<forall>r. s ! i = Num r \<longrightarrow>
          (\<exists>r'. clip ?low ?high s ! i = Num r' \<and> ?low \<le> r' \<and> r' \<le> ?high)"
    using assms(3) clip_range[OF lh] by (simp add: clip_nth)
  ultimately show ?thesis using o by blast
qed



lemma cap_columns_effect:
  "distinct cs \<Longrightarrow> cap_columns cs df = Inr df' \<Longrightarrow>
     (\<forall>c. c \<notin> set cs \<longrightarrow> col df' c = col df c)
   \<and> (\<forall>c \<in> set cs. has_col df c \<longrightarrow> cap_outliers_iqr (col df c) = Inr (col df' c))
   \<and> (\<forall>c. has_col df' c = has_col df c)"
proof (induction cs arbitrary: df)
  case Nil
  then show ?case by simp
next
  case (Cons c cs)
  show ?case
  proof (cases "has_col df c")
    case False
    with Cons.prems have r: "cap_columns cs df = Inr df'" by simp
    from Cons.prems have d: "distinct cs" by simp
    from Cons.IH[OF d r] False show ?thesis by auto
  next
    case True
    with Cons.prems obtain xs where x: "cap_outliers_iqr (col df c) = Inr xs"
      and r: "cap_columns cs (assign df c xs) = Inr df'"
      by (auto split: sum.splits)
    from Cons.prems have d: "distinct cs" and nc: "c \<notin> set cs" by simp_all
    note ih = Cons.IH[OF d r]
    from ih nc have cc: "col df' c = xs" by (simp add: col_assign_same)
    have o: "c' \<in> set cs \<Longrightarrow> has_col df c' \<Longrightarrow> cap_outliers_iqr (col df c') = Inr (col df' c')" for c'
    proof -
      assume a: "c' \<in> set cs" "has_col df c'"
      with nc have ne: "c' \<noteq> c" by auto
      from a have "has_col (assign df c xs) c'" by (simp add: has_col_assign)
      with ih a have "cap_outliers_iqr (col (assign df c xs) c') = Inr (col df' c')" by blast
      with ne show ?thesis by (simp add: col_assign_other)
    qed
    have u: "c' \<notin> set (c # cs) \<Longrightarrow> col df' c' = col df c'" for c'
      using ih by (simp add: col_assign_other)
    have h: "has_col df' c' = has_col df c'" for c'
      using ih True by (auto simp: has_col_assign)
    from x cc o u h show ?thesis by auto
  qed
qed

lemma col_fill_student_age: "c \<noteq> ''student_age'' \<Longrightarrow> col (fill_student_age df) c = col df c"
  by (simp add: fill_student_age_def col_assign_other split: option.splits)

lemma has_col_fill_student_age: "has_col (fill_student_age df) c = has_col df c"
  by (auto simp: fill_student_age_def has_col_assign split: option.splits)

lemma fill_missing_capped:
  assumes "c \<in> set capped_columns" and "has_col df c"
  shows "col (fill_missing df) c = fillna (Num 0) (col df c)"
proof -
  let ?df1 = "fill_student_age df"
  let ?df2 = "assign ?df1 ''student_gender'' (fillna (Str ''unknown'') (col ?df1 ''student_gender''))"
  from assms(1) have ne: "c \<noteq> ''student_age''" "c \<noteq> ''student_gender''" "c \<noteq> ''engagement''"
    by (auto simp: capped_columns_def)
  have c2: "col ?df2 c = col df c" using ne by (simp add: col_assign_other col_fill_student_age)
  have h2: "has_col ?df2 c" using assms(2) by (simp add: has_col_assign has_col_fill_student_age)
  from assms(1) consider "c = ''watch_time_sec''" | "c = ''duration_sec''" | "c = ''views''"
    by (auto simp: capped_columns_def)
  then show ?thesis
  proof cases
    case 1
    with c2 h2 show ?thesis
      by (simp add: fill_missing_def Let_def numeric_fill_zero_def col_assign_same col_assign_other has_col_assign)
  next
    case 2
    with c2 h2 show ?thesis
      by (simp add: fill_missing_def Let_def numeric_fill_zero_def col_assign_same col_assign_other has_col_assign)
  next
    case 3
    with c2 h2 show ?thesis
      by (simp add: fill_missing_def Let_def numeric_fill_zero_def col_assign_same col_assign_other has_col_assign)
  qed
qed

lemma cap_outliers_Inr_cases:
  assumes "cap_outliers_iqr s = Inr out" and "\<not> list_all isna s"
  shows "numeric_col s \<or>
     (\<not> list_ex is_Num s \<and>
      out = clip_ts (py_trunc (quantile (1 / 100) (stamps s)))
                    (py_trunc (quantile (99 / 100) (stamps s))) s)"
proof (cases "list_ex is_Ts s")
  case True
  with assms show ?thesis by (auto simp: cap_outliers_iqr_def Let_def split: if_splits)
next
  case False
  with assms have "\<not> list_ex is_Str s"
    by (auto simp: cap_outliers_iqr_def split: if_splits)
  with False have "numeric_col s"
    by (auto simp: numeric_col_def list_all_iff list_ex_iff is_Str_def is_Ts_def split: cell.splits)
  then show ?thesis by simp
qed

lemma cap_outliers_range_any:
  assumes "cap_outliers_iqr s = Inr out" and "\<not> list_all isna s" and "i < length s"
  shows "length out = length s
     \<and> (s ! i = Null \<longrightarrow> out ! i = Null)
     \<and> (\<forall>r. s ! i = Num r \<longrightarrow>
          (\<exists>r'. out ! i = Num r' \<and> quantile (1 / 100) (nums s) \<le> r'
                 \<and> r' \<le> quantile (99 / 100) (nums s)))"
proof (cases "numeric_col s")
  case True
  from cap_outliers_range[OF True assms(2,3)] assms(1) show ?thesis by auto
next
  case False
  with cap_outliers_Inr_cases[OF assms(1,2)] have
    nn: "\<not> list_ex is_Num s"
    and o: "out = clip_ts (py_trunc (quantile (1 / 100) (stamps s)))
                    (py_trunc (quantile (99 / 100) (stamps s))) s"
    by auto
  from assms(3) have "s ! i \<in> set s" by simp
  with nn have "\<not> is_Num (s ! i)" by (auto simp: list_ex_iff)
  then have "\<And>r. s ! i \<noteq> Num r" by (auto simp: is_Num_def)
  moreover have "length out = length s" by (simp add: o clip_ts_def)
  moreover have "s ! i = Null \<longrightarrow> out ! i = Null"
    using assms(3) by (simp add: o clip_ts_def)
  ultimately show ?thesis by simp
qed

lemma fillna_nth: "i < length xs \<Longrightarrow> fillna v xs ! i = (if xs ! i = Null then v else xs ! i)"
  by (simp add: fillna_def isna_def)

text \<open>
  C6, as the code has it. Let \<open>pre\<close> be a capped column as it stands before
  capping (after de-duplication). If \<open>pre\<close> holds no number, capping returns it
  unchanged. Otherwise every cell that holds a number before capping holds, in
  the final output, a number within the 1st and 99th percentile of the numbers
  of \<open>pre\<close>. A cell that is null before capping is null after capping and is
  then set to 0 by the missing-value step, whatever the percentiles are.
\<close>

theorem capped_values_in_range:
  assumes "finish df9 = Inr out" and "c \<in> set capped_columns"
    and "has_col (remove_duplicates df9) c"
    and "i < length (col (remove_duplicates df9) c)"
  shows "(list_all isna (col (remove_duplicates df9) c) \<longrightarrow>
            cap_outliers_iqr (col (remove_duplicates df9) c) = Inr (col (remove_duplicates df9) c))
       \<and> (col (remove_duplicates df9) c ! i = Null \<longrightarrow> col out c ! i = Num 0)
       \<and> (\<forall>r. col (remove_duplicates df9) c ! i = Num r \<longrightarrow>
            (\<exists>r'. col out c ! i = Num r'
               \<and> quantile (1 / 100) (nums (col (remove_duplicates df9) c)) \<le> r'
               \<and> r' \<le> quantile (99 / 100) (nums (col (remove_duplicates df9) c))))"
proof -
  let ?pre = "col (remove_duplicates df9) c"
  from assms(1) obtain df11 where
    cc: "cap_columns capped_columns (remove_duplicates df9) = Inr df11"
    and o: "out = fill_missing df11"
    by (auto simp: finish_def split: sum.splits)
  have d: "distinct capped_columns" by (simp add: capped_columns_def)
  from cap_columns_effect[OF d cc] assms(2,3) have
    cp: "cap_outliers_iqr ?pre = Inr (col df11 c)" and h11: "has_col df11 c" by auto
  have fin: "col out c = fillna (Num 0) (col df11 c)"
    unfolding o using assms(2) h11 by (rule fill_missing_capped)
  have A: "list_all isna ?pre \<longrightarrow> cap_outliers_iqr ?pre = Inr ?pre"
    by (simp add: cap_outliers_unchanged)
  show ?thesis
  proof (cases "list_all isna ?pre")
    case True
    then have "col df11 c = ?pre" using cp by (simp add: cap_outliers_unchanged)
    moreover from True assms(4) have "?pre ! i = Null" by (auto simp: list_all_length isna_def)
    ultimately show ?thesis using A fin assms(4) by (simp add: fillna_nth)
  next
    case False
    from cap_outliers_range_any[OF cp False assms(4)] have
      l: "length (col df11 c) = length ?pre"
      and n: "?pre ! i = Null \<longrightarrow> col df11 c ! i = Null"
      and r: "\<forall>r. ?pre ! i = Num r \<longrightarrow>
          (\<exists>r'. col df11 c ! i = Num r' \<and> quantile (1 / 100) (nums ?pre) \<le> r'
                 \<and> r' \<le> quantile (99 / 100) (nums ?pre))"
      by auto
    from l assms(4) have i: "i < length (col df11 c)" by simp
    have B: "?pre ! i = Null \<longrightarrow> col out c ! i = Num 0"
      using n i by (simp add: fin fillna_nth)
    have C: "\<forall>r. ?pre ! i = Num r \<longrightarrow>
          (\<exists>r'. col out c ! i = Num r' \<and> quantile (1 / 100) (nums ?pre) \<le> r'
                 \<and> r' \<le> quantile (99 / 100) (nums ?pre))"
      using r i by (auto simp: fin fillna_nth)
    from A B C show ?thesis by blast
  qed
qed

lemma cap_prepared_is_prepare: "prepare sample_lib cap_sample = Inr cap_prepared"
  by code_simp

lemma cap_prepared_dedup: "remove_duplicates cap_prepared = cap_prepared"
  by code_simp

lemma cap_prepared_finish:
  "map_sum id (\<lambda>d. col d ''duration_sec'') (finish cap_prepared)
     = Inr [Num (101 / 10), Num (199 / 10), Num 0]"
  by code_simp

theorem capped_values_in_range_witness:
  "(\<exists>out. finish cap_prepared = Inr out)
   \<and> ''duration_sec'' \<in> set capped_columns
   \<and> has_col (remove_duplicates cap_prepared) ''duration_sec''
   \<and> col (remove_duplicates cap_prepared) ''duration_sec'' ! 1 = Num 20
   \<and> (\<exists>r'. Num (199 / 10) = Num r'
         \<and> quantile (1 / 100) (nums (col (remove_duplicates cap_prepared) ''duration_sec'')) \<le> r'
         \<and> r' \<le> quantile (99 / 100) (nums (col (remove_duplicates cap_prepared) ''duration_sec'')))"
proof -
  from cap_prepared_finish obtain out where f: "finish cap_prepared = Inr out"
    and o: "col out ''duration_sec'' = [Num (101 / 10), Num (199 / 10), Num 0]"
    by (cases "finish cap_prepared") auto
  have c: "col cap_prepared ''duration_sec'' = [Num 10, Num 20, Null]"
    by (simp add: cap_prepared_def col_def)
  have a2: "''duration_sec'' \<in> set capped_columns" by (simp add: capped_columns_def)
  have "has_col cap_prepared ''duration_sec''"
    by (simp add: cap_prepared_def has_col_def columns_def)
  then have a3: "has_col (remove_duplicates cap_prepared) ''duration_sec''"
    by (simp only: cap_prepared_dedup)
  have a4: "1 < length (col (remove_duplicates cap_prepared) ''duration_sec'')"
    by (simp add: cap_prepared_dedup c)
  have v: "col (remove_duplicates cap_prepared) ''duration_sec'' ! 1 = Num 20"
    by (simp add: cap_prepared_dedup c)
  have o1: "col out ''duration_sec'' ! 1 = Num (199 / 10)" by (simp add: o)
  from capped_values_in_range[OF f a2 a3 a4] v o1
  have "\<exists>r'. Num (199 / 10) = Num r'
         \<and> quantile (1 / 100) (nums (col (remove_duplicates cap_prepared) ''duration_sec'')) \<le> r'
         \<and> r' \<le> quantile (99 / 100) (nums (col (remove_duplicates cap_prepared) ''duration_sec''))"
    by (metis (no_types, lifting))
  with f a2 a3 v show ?thesis by blast
qed

text \<open>
  The claim as stated fails on the final output: the third row of the sample
  has no \<open>duration_sec\<close>; capping leaves it null and the missing-value step
  writes 0, below the 1st percentile 10.1 of the column before capping.
\<close>

theorem capped_null_filled_outside_range:
  "map_sum id (\<lambda>d. col d ''duration_sec'') (clean_dataframe sample_lib cap_sample)
     = Inr [Num (101 / 10), Num (199 / 10), Num 0]
   \<and> quantile (1 / 100) (nums (col cap_sample ''duration_sec'')) = 101 / 10
   \<and> quantile (99 / 100) (nums (col cap_sample ''duration_sec'')) = 199 / 10
   \<and> \<not> (101 / 10 \<le> (0 :: rat))"
  by code_simp

section \<open>Row labels in decimal\<close>

lemma digit_val_digit_char: "d < 10 \<Longrightarrow> digit_val (digit_char d) = d"
  by (simp add: digit_val_def digit_char_def)

lemma is_digit_digit_char: "d < 10 \<Longrightarrow> is_digit (digit_char d)"
  by (simp add: is_digit_def digit_char_def)

lemma digits_val_snoc: "digits_val (ds @ [c]) = 10 * digits_val ds + digit_val c"
  by (simp add: digits_val_def)

lemma digits_val_dec: "digits_val (dec n) = n"
proof (induction n rule: dec.induct)
  case (1 n)
  show ?case
  proof (cases "n < 10")
    case True
    then show ?thesis by (subst dec.simps) (simp add: digits_val_def digit_val_digit_char)
  next
    case False
    with 1 have "digits_val (dec (n div 10)) = n div 10" by simp
    with False show ?thesis
      by (subst dec.simps) (simp add: digits_val_snoc digit_val_digit_char)
  qed
qed

lemma dec_all_digits: "list_all is_digit (dec n)"
proof (induction n rule: dec.induct)
  case (1 n)
  show ?case
  proof (cases "n < 10")
    case True
    then show ?thesis by (subst dec.simps) (simp add: is_digit_digit_char)
  next
    case False
    with 1 have "list_all is_digit (dec (n div 10))" by simp
    with False show ?thesis by (subst dec.simps) (simp add: is_digit_digit_char)
  qed
qed

lemma dec_inj: "dec m = dec n \<Longrightarrow> m = n"
  by (metis digits_val_dec)

lemma dec_no_underscore: "CHR ''_'' \<notin> set (dec n)"
  using dec_all_digits[of n] by (auto simp: list_all_iff is_digit_def)

lemma suffix_after_sep:
  assumes "a @ sep # x = b @ sep # y" and "sep \<notin> set x" and "sep \<notin> set y"
  shows "x = y"
proof -
  have t: "takeWhile (\<lambda>c. c \<noteq> sep) (rev z @ sep # w) = rev z" if "sep \<notin> set z" for z w
    using that by (auto simp: takeWhile_tail)
  from assms(1) have "rev (a @ sep # x) = rev (b @ sep # y)" by simp
  then have "rev x @ sep # rev a = rev y @ sep # rev b" by simp
  then have "takeWhile (\<lambda>c. c \<noteq> sep) (rev x @ sep # rev a) = takeWhile (\<lambda>c. c \<noteq> sep) (rev y @ sep # rev b)"
    by simp
  with t[OF assms(2)] t[OF assms(3)] show ?thesis by simp
qed

section \<open>Synthetic identifiers\<close>

lemma synthetic_id_inj:
  "Str (py_str L s @ ''_'' @ dec i) = Str (py_str L t @ ''_'' @ dec j) \<Longrightarrow> i = j"
proof -
  assume "Str (py_str L s @ ''_'' @ dec i) = Str (py_str L t @ ''_'' @ dec j)"
  then have "py_str L s @ CHR ''_'' # dec i = py_str L t @ CHR ''_'' # dec j" by simp
  then have "dec i = dec j" by (rule suffix_after_sep) (rule dec_no_underscore)+
  then show ?thesis by (rule dec_inj)
qed

lemma distinct_map2_ids:
  assumes "distinct ix" and "length src = length ix"
  shows "distinct (map2 (\<lambda>s i. Str (py_str L s @ ''_'' @ dec i)) src ix)"
proof -
  let ?f = "\<lambda>s i. Str (py_str L s @ ''_'' @ dec i)"
  have "\<And>a b. a < length (map2 ?f src ix) \<Longrightarrow> b < length (map2 ?f src ix) \<Longrightarrow> a \<noteq> b \<Longrightarrow>
      map2 ?f src ix ! a \<noteq> map2 ?f src ix ! b"
  proof
    fix a b
    assume a: "a < length (map2 ?f src ix)" and b: "b < length (map2 ?f src ix)" and ne: "a \<noteq> b"
      and eq: "map2 ?f src ix ! a = map2 ?f src ix ! b"
    from a b assms(2) have la: "a < length ix" and lb: "b < length ix" by simp_all
    from eq a b have "?f (src ! a) (ix ! a) = ?f (src ! b) (ix ! b)" by simp
    then have "ix ! a = ix ! b" by (rule synthetic_id_inj)
    with assms(1) la lb ne show False by (simp add: nth_eq_iff_index_eq)
  qed
  then show ?thesis by (simp only: distinct_conv_nth) blast
qed

section \<open>The unifier\<close>

lemma idx_assign [simp]: "idx (assign df c xs) = idx df"
  by (simp add: assign_def)

lemma nrows_assign [simp]: "nrows (assign df c xs) = nrows df"
  by (simp add: nrows_def)

lemma idx_assign_scalar [simp]: "idx (assign_scalar df c v) = idx df"
  by (simp add: assign_scalar_def)

lemma fold_assign_present:
  fixes g :: "frame \<Rightarrow> string \<Rightarrow> cell list"
  defines "F \<equiv> (\<lambda>d c. if has_col d c then assign d c (g d c) else d)"
  shows "idx (foldl F df cs) = idx df"
    and "has_col (foldl F df cs) c' = has_col df c'"
    and "c' \<notin> set cs \<Longrightarrow> col (foldl F df cs) c' = col df c'"
proof -
  have s: "idx (F d c) = idx d" "has_col (F d c) x = has_col d x"
    "x \<noteq> c \<Longrightarrow> col (F d c) x = col d x" for d c x
    by (auto simp: F_def has_col_assign col_assign_other)
  show "idx (foldl F df cs) = idx df"
    by (induction cs arbitrary: df) (simp_all add: s)
  show "has_col (foldl F df cs) c' = has_col df c'"
    by (induction cs arbitrary: df) (simp_all add: s)
  show "c' \<notin> set cs \<Longrightarrow> col (foldl F df cs) c' = col df c'"
    by (induction cs arbitrary: df) (simp_all add: s)
qed

lemma coerce_basic_frame:
  "idx (coerce_basic L df) = idx df"
  "has_col (coerce_basic L df) c = has_col df c"
  "c \<notin> {''watch_time'', ''duration_sec'', ''engagement'', ''student_age'', ''views''} \<Longrightarrow>
     col (coerce_basic L df) c = col df c"
proof -
  show "idx (coerce_basic L df) = idx df"
    unfolding coerce_basic_def by (rule fold_assign_present(1))
  show "has_col (coerce_basic L df) c = has_col df c"
    unfolding coerce_basic_def by (rule fold_assign_present(2))
  show "c \<notin> {''watch_time'', ''duration_sec'', ''engagement'', ''student_age'', ''views''} \<Longrightarrow>
     col (coerce_basic L df) c = col df c"
    unfolding coerce_basic_def by (rule fold_assign_present(3)) simp
qed

lemma coerce_timestamp_frame:
  "idx (coerce_timestamp L df) = idx df"
  "has_col (coerce_timestamp L df) c = has_col df c"
  "c \<noteq> ''timestamp'' \<Longrightarrow> col (coerce_timestamp L df) c = col df c"
  by (auto simp: coerce_timestamp_def has_col_assign col_assign_other)

lemma map_of_keyed:
  "map_of (map (\<lambda>k. (k, f k)) ks) k = (if k \<in> set ks then Some (f k) else None)"
  by (induction ks) auto

lemma col_absent: "\<not> has_col df c \<Longrightarrow> col df c = []"
  by (simp add: has_col_def columns_def col_def map_of_eq_None_iff[THEN iffD2])

lemma col_update_cols:
  "col (df\<lparr>cols := cs\<rparr>) c = (case map_of cs c of Some xs \<Rightarrow> xs | None \<Rightarrow> [])"
  by (simp add: col_def)

lemma map_of_filter_label:
  "map_of (filter (\<lambda>(n, xs). n = c) cs) k = (if k = c then map_of cs k else None)"
  by (induction cs) auto

lemma map_of_select:
  "map_of (concat (map (\<lambda>c. filter (\<lambda>(n, xs). n = c) cs) labels)) k =
     (if k \<in> set labels then map_of cs k else None)"
proof (induction labels)
  case Nil
  then show ?case by simp
next
  case (Cons c labels)
  then show ?case
    by (cases "map_of cs k") (auto simp: map_add_def map_of_filter_label split: option.splits)
qed

lemma col_select_columns:
  "col (select_columns labels df) c = (if c \<in> set labels then col df c else [])"
  by (simp add: select_columns_def col_update_cols map_of_select) (simp add: col_def)

lemma col_reorder: "col (reorder df) c = col df c"
proof -
  define order where "order = (let keep = unique_in_order (required @ [''student_id'', ''source_file'', ''views'']);
          existing_keep = filter (has_col df) keep
      in existing_keep @ filter (\<lambda>c. c \<notin> set existing_keep) (columns df))"
  have so: "(c \<in> set order) = has_col df c"
    by (auto simp: order_def Let_def has_col_def)
  have r: "reorder df = select_columns order df"
    by (simp add: reorder_def order_def Let_def)
  have "col (reorder df) c = (if c \<in> set order then col df c else [])"
    unfolding r by (rule col_select_columns)
  with so show ?thesis by (simp add: col_absent)
qed

lemma idx_reorder [simp]: "idx (reorder df) = idx df"
  by (simp add: reorder_def Let_def select_columns_def)

lemma idx_strip_column_names [simp]: "idx (strip_column_names df) = idx df"
  by (simp add: strip_column_names_def)

lemma idx_rename [simp]: "idx (rename m df) = idx df"
  by (simp add: rename_def)

lemma idx_add_required [simp]: "idx (add_required df) = idx df"
proof -
  have "idx (foldl (\<lambda>d c. if \<not> has_col d c then assign_scalar d c Null else d) df cs) = idx df" for cs
    by (induction cs arbitrary: df) simp_all
  then show ?thesis by (simp add: add_required_def)
qed

lemma idx_mapped [simp]: "idx (mapped df) = idx df"
  by (simp add: mapped_def Let_def)

lemma add_source_file_frame:
  "idx (add_source_file df) = idx df"
  "has_col (add_source_file df) ''source_file''"
  "c \<noteq> ''source_file'' \<Longrightarrow> col (add_source_file df) c = col df c"
  "col (add_source_file df) ''source_file'' =
     (if has_col df ''_source_file'' then col df ''_source_file''
      else if has_col df ''source'' then col df ''source''
      else replicate (nrows df) Null)"
  by (auto simp: add_source_file_def has_col_assign has_col_assign_scalar col_assign_other
      col_assign_scalar_other col_assign_same col_assign_scalar_same)



lemma unify_source_file:
  "col (unify_columns L df) ''source_file'' =
      (if has_col (mapped df) ''_source_file'' then col (mapped df) ''_source_file''
       else if has_col (mapped df) ''source'' then col (mapped df) ''source''
       else replicate (nrows df) Null)"
proof -
  let ?X = "coerce_timestamp L (coerce_basic L (mapped df))"
  have n: "nrows ?X = nrows df"
    by (simp add: nrows_def coerce_timestamp_frame coerce_basic_frame)
  have "col (unify_columns L df) ''source_file'' = col (add_source_file ?X) ''source_file''"
    by (simp add: unify_columns_def col_reorder ensure_student_id_def col_assign_other)
  then show ?thesis
    by (simp add: add_source_file_frame coerce_timestamp_frame coerce_basic_frame n)
qed

lemma unify_student_id_pre:
  "col (add_source_file (coerce_timestamp L (coerce_basic L (mapped df)))) ''student_id''
     = col (mapped df) ''student_id''"
  by (simp add: add_source_file_frame coerce_timestamp_frame coerce_basic_frame)

lemma length_unify_source_file:
  assumes "wf_frame (mapped df)"
  shows "length (col (unify_columns L df) ''source_file'') = nrows df"
proof -
  have n: "nrows (mapped df) = nrows df" by (simp add: nrows_def)
  show ?thesis
    using wf_col_length[OF assms, of "''_source_file''"] wf_col_length[OF assms, of "''source''"]
    by (simp add: unify_source_file n)
qed

text \<open>
  C1, as the code has it. When the \<open>student_id\<close> column is entirely null after
  mapping, every row gets the synthetic identifier made of its \<open>source_file\<close>, an
  underscore and its row label; these are non-null and, the row labels being
  distinct, pairwise different. Otherwise the column is kept as it is, nulls
  included. \<open>source_file\<close> is a copy of the batch's \<open>_source_file\<close> column, or
  else of its \<open>source\<close> column, or else null in every row.
\<close>

theorem unify_student_id_and_source:
  assumes "wf_frame (mapped df)" and "distinct (idx df)"
  shows "(list_all isna (col (mapped df) ''student_id'') \<longrightarrow>
            col (unify_columns L df) ''student_id''
              = map2 (\<lambda>s i. Str (py_str L s @ ''_'' @ dec i))
                     (col (unify_columns L df) ''source_file'') (idx df)
          \<and> length (col (unify_columns L df) ''student_id'') = nrows df
          \<and> distinct (col (unify_columns L df) ''student_id'')
          \<and> (\<forall>v \<in> set (col (unify_columns L df) ''student_id''). v \<noteq> Null))
       \<and> (\<not> list_all isna (col (mapped df) ''student_id'') \<longrightarrow>
            col (unify_columns L df) ''student_id'' = col (mapped df) ''student_id'')
       \<and> col (unify_columns L df) ''source_file'' =
            (if has_col (mapped df) ''_source_file'' then col (mapped df) ''_source_file''
             else if has_col (mapped df) ''source'' then col (mapped df) ''source''
             else replicate (nrows df) Null)"
proof (intro conjI impI)
  let ?T = "add_source_file (coerce_timestamp L (coerce_basic L (mapped df)))"
  let ?f = "\<lambda>s i. Str (py_str L s @ ''_'' @ dec i)"
  have sf: "col (unify_columns L df) ''source_file'' = col ?T ''source_file''"
    by (simp add: unify_columns_def col_reorder ensure_student_id_def col_assign_other)
  have ix: "idx ?T = idx df"
    by (simp add: add_source_file_frame coerce_timestamp_frame coerce_basic_frame)
  have ls: "length (col ?T ''source_file'') = length (idx df)"
    using length_unify_source_file[OF assms(1), of L] by (simp add: sf nrows_def)
  {
    assume a: "list_all isna (col (mapped df) ''student_id'')"
    then have "col (unify_columns L df) ''student_id'' = synthetic_ids L ?T"
      by (simp add: unify_columns_def col_reorder ensure_student_id_def unify_student_id_pre
          col_assign_same)
    moreover have "has_col ?T ''source_file''" by (rule add_source_file_frame(2))
    ultimately have e: "col (unify_columns L df) ''student_id'' = map2 ?f (col ?T ''source_file'') (idx df)"
      by (simp only: synthetic_ids_def if_True Let_def ix)
    show "col (unify_columns L df) ''student_id''
              = map2 ?f (col (unify_columns L df) ''source_file'') (idx df)"
      using e by (simp add: sf)
    show "length (col (unify_columns L df) ''student_id'') = nrows df"
      using e ls by (simp add: nrows_def)
    show "distinct (col (unify_columns L df) ''student_id'')"
      unfolding e using assms(2) ls by (rule distinct_map2_ids)
    show "\<forall>v \<in> set (col (unify_columns L df) ''student_id''). v \<noteq> Null"
      unfolding e by (auto dest!: set_zip_leftD simp: in_set_zip)
  }
  {
    assume "\<not> list_all isna (col (mapped df) ''student_id'')"
    then show "col (unify_columns L df) ''student_id'' = col (mapped df) ''student_id''"
      by (simp add: unify_columns_def col_reorder ensure_student_id_def unify_student_id_pre)
  }
  show "col (unify_columns L df) ''source_file'' =
            (if has_col (mapped df) ''_source_file'' then col (mapped df) ''_source_file''
             else if has_col (mapped df) ''source'' then col (mapped df) ''source''
             else replicate (nrows df) Null)"
    by (rule unify_source_file)
qed

lemma synthetic_sample_facts:
  "wf_frame (mapped synthetic_sample)" "distinct (idx synthetic_sample)"
  "list_all isna (col (mapped synthetic_sample) ''student_id'')"
  "col (unify_columns sample_lib synthetic_sample) ''student_id''
     = [Str ''sim.csv_0'', Str ''sim.csv_1'']"
  by code_simp+

theorem unify_student_id_and_source_witness:
  "wf_frame (mapped synthetic_sample) \<and> distinct (idx synthetic_sample)
   \<and> list_all isna (col (mapped synthetic_sample) ''student_id'')
   \<and> col (unify_columns sample_lib synthetic_sample) ''student_id''
        = [Str ''sim.csv_0'', Str ''sim.csv_1'']
   \<and> distinct (col (unify_columns sample_lib synthetic_sample) ''student_id'')
   \<and> Null \<notin> set (col (unify_columns sample_lib synthetic_sample) ''student_id'')"
  using unify_student_id_and_source[OF synthetic_sample_facts(1,2), of sample_lib]
    synthetic_sample_facts
  by blast

text \<open>
  The claim as stated fails in both parts: a batch whose identifier column is
  null in one row only keeps that null, and a batch without \<open>_source_file\<close> and
  \<open>source\<close> columns gets a null \<open>source_file\<close> in every row.
\<close>

theorem unify_leaves_nulls:
  "col (unify_columns sample_lib partial_id_sample) ''student_id'' = [Str ''a'', Null]
   \<and> col (unify_columns sample_lib untagged_sample) ''source_file'' = [Null, Null]"
  by code_simp

section \<open>Running the cleaner twice\<close>

lemma assign_cols_twice: "assign_cols (assign_cols cs c xs) c ys = assign_cols cs c ys"
  by (induction cs c xs rule: assign_cols.induct) auto

lemma assign_twice: "assign (assign df c xs) c ys = assign df c ys"
  by (simp add: assign_def assign_cols_twice)

lemma map_gender_fixed:
  assumes "v \<in> {Str ''female'', Str ''male'', Str ''unknown''}"
  shows "(if isna (map_gender L v) then Str ''unknown'' else map_gender L v) = v"
proof -
  have s: "strip (lower ''female'') = ''female''" "strip (lower ''male'') = ''male''"
    "strip (lower ''unknown'') = ''unknown''"
    by code_simp+
  from assms show ?thesis
    by (auto simp: map_gender_def py_str_def s gender_mapping_def isna_def)
qed

lemma gender_column_fixed:
  assumes "\<forall>v \<in> set xs. v \<in> {Str ''female'', Str ''male'', Str ''unknown''}"
  shows "fillna (Str ''unknown'') (map (map_gender L) xs) = xs"
proof -
  have "map (\<lambda>x. if isna (map_gender L x) then Str ''unknown'' else map_gender L x) xs = map (\<lambda>x. x) xs"
    using assms by (intro map_cong refl map_gender_fixed) auto
  then show ?thesis by (simp add: fillna_def o_def)
qed

lemma normalize_gender_as_assign:
  "\<exists>xs. normalize_gender L df = assign df ''student_gender'' xs
      \<and> (\<forall>v \<in> set xs. v \<in> {Str ''female'', Str ''male'', Str ''unknown''})"
proof (cases "has_col df ''student_gender''")
  case True
  then have "normalize_gender L df = assign df ''student_gender''
      (fillna (Str ''unknown'') (map (map_gender L) (col df ''student_gender'')))"
    by (simp add: normalize_gender_def)
  then show ?thesis using gender_cells[of _ L "col df ''student_gender''"] by blast
next
  case False
  then have "normalize_gender L df = assign df ''student_gender'' (replicate (nrows df) (Str ''unknown''))"
    by (simp add: normalize_gender_def assign_scalar_def)
  moreover have "\<forall>v \<in> set (replicate (nrows df) (Str ''unknown'')).
      v \<in> {Str ''female'', Str ''male'', Str ''unknown''}" by simp
  ultimately show ?thesis by blast
qed

lemma normalize_gender_idem: "normalize_gender L (normalize_gender L df) = normalize_gender L df"
proof -
  let ?N = "normalize_gender L df"
  from normalize_gender_as_assign[of L df] obtain xs where N: "?N = assign df ''student_gender'' xs"
    and r: "\<forall>v \<in> set xs. v \<in> {Str ''female'', Str ''male'', Str ''unknown''}"
    by blast
  have h: "has_col ?N ''student_gender''" by (simp add: N has_col_assign)
  have c: "col ?N ''student_gender'' = xs" by (simp add: N col_assign_same)
  from r have f: "fillna (Str ''unknown'') (map (map_gender L) xs) = xs"
    by (rule gender_column_fixed)
  have "normalize_gender L ?N = assign ?N ''student_gender'' xs"
    using h by (simp add: normalize_gender_def[of L ?N] c f)
  then show ?thesis by (simp add: N assign_twice)
qed

lemma first_seen_distinct:
  "distinct ks \<Longrightarrow> set ks \<inter> set seen = {} \<Longrightarrow> first_seen seen ks = replicate (length ks) True"
  by (induction ks arbitrary: seen) auto

lemma pick_all: "length xs \<le> n \<Longrightarrow> pick (replicate n True) xs = xs"
proof (induction xs arbitrary: n)
  case Nil
  then show ?case by simp
next
  case (Cons x xs)
  then obtain m where "n = Suc m" by (cases n) auto
  with Cons show ?case by simp
qed

lemma length_pick_same:
  "length xs = length keep \<Longrightarrow> length ys = length keep \<Longrightarrow> length (pick keep xs) = length (pick keep ys)"
proof (induction keep arbitrary: xs ys)
  case Nil
  then show ?case by simp
next
  case (Cons b bs)
  then obtain x xs' y ys' where "xs = x # xs'" "ys = y # ys'" by (cases xs; cases ys) auto
  with Cons show ?case by auto
qed

lemma select_rows_all:
  assumes "list_all (\<lambda>(n, xs). length xs \<le> k) (cols df)" and "length (idx df) \<le> k"
  shows "select_rows (replicate k True) df = df"
proof -
  have "map (\<lambda>(n, xs). (n, pick (replicate k True) xs)) (cols df) = map (\<lambda>p. p) (cols df)"
    using assms(1) by (intro map_cong refl) (auto simp: list_all_iff pick_all)
  then show ?thesis using assms(2) by (simp add: select_rows_def pick_all)
qed

lemma wf_select_rows:
  assumes "wf_frame df" and "length keep = nrows df"
  shows "wf_frame (select_rows keep df)"
proof -
  have "length (pick keep xs) = length (pick keep (idx df))" if "(n, xs) \<in> set (cols df)" for n xs
  proof -
    from that assms(1) have "length xs = nrows df" by (auto simp: wf_frame_def list_all_iff)
    with assms(2) show ?thesis by (intro length_pick_same) (simp_all add: nrows_def)
  qed
  then have "list_all (\<lambda>(n, xs). length xs = nrows (select_rows keep df)) (cols (select_rows keep df))"
    by (auto simp: list_all_iff select_rows_def nrows_def)
  moreover have "distinct (columns (select_rows keep df))"
    using assms(1) by (simp add: columns_select_rows wf_frame_def)
  ultimately show ?thesis by (simp add: wf_frame_def)
qed

lemma key_cols_select_rows: "key_cols (select_rows keep df) = key_cols df"
  by (simp add: key_cols_def has_col_select_rows)

lemma remove_duplicates_idem:
  assumes "wf_frame df"
  shows "remove_duplicates (remove_duplicates df) = remove_duplicates df"
proof (cases "key_cols df = []")
  case True
  then show ?thesis by (simp add: remove_duplicates_def)
next
  case False
  let ?ks = "key_cols df"
  let ?keep = "first_seen [] (row_keys df ?ks)"
  let ?R = "select_rows ?keep df"
  have R: "remove_duplicates df = ?R"
    using False by (simp add: remove_duplicates_def drop_duplicates_def)
  have l: "length ?keep = nrows df" by simp
  have wR: "wf_frame ?R" using assms l by (rule wf_select_rows)
  have kR: "key_cols ?R = ?ks" by (rule key_cols_select_rows)
  have "row_keys ?R ?ks = pick ?keep (row_keys df ?ks)"
    using assms _ l by (rule row_keys_select_rows) (auto simp: key_cols_present)
  then have d: "distinct (row_keys ?R ?ks)" by (simp add: distinct_pick_first_seen)
  then have fs: "first_seen [] (row_keys ?R ?ks) = replicate (nrows ?R) True"
    using first_seen_distinct[of "row_keys ?R ?ks" "[]"] by simp
  have "select_rows (replicate (nrows ?R) True) ?R = ?R"
    using wR by (intro select_rows_all) (auto simp: wf_frame_def list_all_iff nrows_def)
  then have "remove_duplicates ?R = ?R"
    using False by (simp add: remove_duplicates_def drop_duplicates_def kR fs)
  then show ?thesis by (simp add: R)
qed

text \<open>
  C9, as the code has it. The cleaner as a whole is not idempotent; two of its
  steps are: normalising the genders of a table whose genders are normalised
  changes nothing, and removing the duplicates of a table whose duplicates are
  removed removes nothing.
\<close>

theorem cleaner_steps_idempotent:
  assumes "wf_frame df"
  shows "normalize_gender L (normalize_gender L df) = normalize_gender L df
       \<and> remove_duplicates (remove_duplicates df) = remove_duplicates df"
  using assms by (simp add: normalize_gender_idem remove_duplicates_idem)

theorem cleaner_steps_idempotent_witness:
  "wf_frame dup_sample
   \<and> normalize_gender sample_lib (normalize_gender sample_lib dup_sample)
       = normalize_gender sample_lib dup_sample
   \<and> remove_duplicates (remove_duplicates dup_sample) = remove_duplicates dup_sample"
  using cleaner_steps_idempotent[of dup_sample sample_lib] dup_sample_facts(1) by simp

text \<open>
  The claim as stated fails: the cleaner caps and zero-fills \<open>duration_sec\<close>
  again on its own output, so the second run differs from the first.
\<close>

theorem clean_twice_differs:
  "clean_dataframe sample_lib cap_sample = Inr cap_cleaned
   \<and> clean_dataframe sample_lib cap_cleaned \<noteq> Inr cap_cleaned
   \<and> map_sum id (\<lambda>d. col d ''duration_sec'') (clean_dataframe sample_lib cap_cleaned)
       = Inr [Num (101 / 10), Num (2463 / 125), Num (101 / 500)]"
  by code_simp

end
